theory Spec2Isabelle
  imports Complex_Main
begin

text \<open>
  A model of the core of the Clado client library: the pure helpers of \<open>utils.ts\<close>
  (\<open>buildUrl\<close>, \<open>toSnakeCase\<close>, \<open>calculateBackoff\<close>), the error classes of
  \<open>errors.ts\<close>, the request engine \<open>request\<close> with its retry loop, and the two loops of
  \<open>client.ts\<close> built on it, \<open>searchPeopleAll\<close> and \<open>waitForDeepResearch\<close>.

  Effects are explicit. A function that talks to the outside takes the environment (the
  network, the clock, the random number generator) and the trace of what has happened
  so far, and returns its result with the extended trace; an exception is the \<open>Inl\<close>
  of a sum. The retry loop is bounded by its counter and is a total function; the two
  \<open>while (true)\<close> loops are partial functions into \<open>option\<close>.
\<close>

section \<open>JavaScript values, objects and strings\<close>

text \<open>
  The values an options object of the client can hold (\<open>string | number | boolean |
  string[] | undefined\<close>, and \<open>null\<close>). Numbers are restricted to integers: limits,
  offsets, totals, status codes and millisecond counts are all the client computes with.
\<close>

datatype jsvalue =
    VUndefined
  | VNull
  | VBool bool
  | VNum int
  | VStr string
  | VArr "string list"

text \<open>
  A plain object is the list of its own entries in \<open>Object.entries\<close> order; the keys of
  a well-formed object are distinct. A property that is absent reads as \<open>None\<close>, which
  is different from a property that is present and holds \<open>undefined\<close>.
\<close>

type_synonym 'v object = "(string \<times> 'v) list"

definition keys :: "'v object \<Rightarrow> string list" where
  "keys obj = map fst obj"

text \<open>\<open>obj[k] = v\<close>: an existing key keeps its place, a new key goes last.\<close>

fun assign :: "string \<Rightarrow> 'v \<Rightarrow> 'v object \<Rightarrow> 'v object" where
  "assign k v [] = [(k, v)]"
| "assign k v ((k', v') # es) =
     (if k' = k then (k, v) # es else (k', v') # assign k v es)"

text \<open>\<open>{...target, ...extra}\<close>: the entries of \<open>extra\<close> are assigned in order.\<close>

definition spread :: "'v object \<Rightarrow> 'v object \<Rightarrow> 'v object" where
  "spread target extra = fold (\<lambda>(k, v). assign k v) extra target"

text \<open>
  An expression or a call into the platform either throws (rejects) with an error
  message or returns (resolves with) a value.
\<close>

datatype 'a outcome = Throws string | Returns 'a

text \<open>A parsed JSON document.\<close>

datatype json =
    JNull
  | JBool bool
  | JNum int
  | JStr string
  | JArr "json list"
  | JObj "(string \<times> json) list"

text \<open>JavaScript truthiness, of a JSON value and of a string.\<close>

fun truthy :: "json \<Rightarrow> bool" where
  "truthy JNull = False"
| "truthy (JBool b) = b"
| "truthy (JNum n) = (n \<noteq> 0)"
| "truthy (JStr s) = (s \<noteq> [])"
| "truthy (JArr xs) = True"
| "truthy (JObj es) = True"

text \<open>
  \<open>j.k\<close> for one of the keys the client reads (\<open>detail\<close>, \<open>error\<close>, \<open>message\<close>):
  an own entry of an object; \<open>undefined\<close> (here \<open>None\<close>) on anything else that is
  not \<open>null\<close>.
\<close>

fun prop_of :: "json \<Rightarrow> string \<Rightarrow> json option" where
  "prop_of (JObj es) k = map_of es k"
| "prop_of j k = None"

text \<open>\<open>a ?? b\<close>, where \<open>None\<close> is \<open>undefined\<close>.\<close>

fun nullish_or :: "json option \<Rightarrow> json \<Rightarrow> json" where
  "nullish_or None d = d"
| "nullish_or (Some JNull) d = d"
| "nullish_or (Some v) d = v"

text \<open>Decimal numerals, as \<open>String(n)\<close> prints an integer.\<close>

fun digits10 :: "nat \<Rightarrow> string" where
  "digits10 n =
     (if n < 10 then [''0123456789'' ! n]
      else digits10 (n div 10) @ [''0123456789'' ! (n mod 10)])"

declare digits10.simps [simp del]

definition show_int :: "int \<Rightarrow> string" where
  "show_int i = (if i < 0 then CHR ''-'' # digits10 (nat (- i)) else digits10 (nat i))"

text \<open>A number that may be \<open>NaN\<close> is an \<open>int option\<close>, \<open>None\<close> being \<open>NaN\<close>.\<close>

definition show_number :: "int option \<Rightarrow> string" where
  "show_number n = (case n of None \<Rightarrow> ''NaN'' | Some i \<Rightarrow> show_int i)"

fun join_comma :: "string list \<Rightarrow> string" where
  "join_comma [] = []"
| "join_comma [s] = s"
| "join_comma (s # t # ss) = s @ '','' @ join_comma (t # ss)"

text \<open>
  What a template literal \<open>`${j}`\<close> makes of a parsed JSON value (the conversion
  \<open>ToString\<close>); \<open>None\<close> is the \<open>TypeError\<close> that the conversion throws. A string is
  itself. An object is converted by its \<open>toString\<close> and then its \<open>valueOf\<close>: without an
  own entry \<open>toString\<close> it inherits the method that prints \<open>[object Object]\<close>; with one,
  the entry is a JSON value and so not callable, \<open>valueOf\<close> is an own entry as well or the
  inherited method that returns the object itself, no primitive value is found and the
  conversion throws. An array joins the conversions of its elements with commas, a
  \<open>null\<close> element giving nothing, and throws when the conversion of an element does.
\<close>

fun String_json :: "json \<Rightarrow> string option"
  and String_elements :: "json list \<Rightarrow> string list option" where
  "String_json JNull = Some ''null''"
| "String_json (JBool b) = Some (if b then ''true'' else ''false'')"
| "String_json (JNum n) = Some (show_int n)"
| "String_json (JStr s) = Some s"
| "String_json (JArr xs) = map_option join_comma (String_elements xs)"
| "String_json (JObj es) =
     (if ''toString'' \<in> set (map fst es) then None else Some ''[object Object]'')"
| "String_elements [] = Some []"
| "String_elements (x # xs) =
     (case (if x = JNull then Some [] else String_json x) of
        None \<Rightarrow> None
      | Some s \<Rightarrow> map_option (\<lambda>ss. s # ss) (String_elements xs))"

text \<open>The message of that \<open>TypeError\<close>, as V8 words it.\<close>

definition TypeError_message :: string where
  "TypeError_message = ''Cannot convert object to primitive value''"

text \<open>\<open>String(v)\<close> for the value of a query parameter.\<close>

fun String_value :: "jsvalue \<Rightarrow> string" where
  "String_value VUndefined = ''undefined''"
| "String_value VNull = ''null''"
| "String_value (VBool b) = (if b then ''true'' else ''false'')"
| "String_value (VNum n) = show_int n"
| "String_value (VStr s) = s"
| "String_value (VArr xs) = join_comma xs"

text \<open>
  \<open>parseInt(s, 10)\<close>: leading white space is skipped, one sign is read, then the longest
  run of decimal digits; no digit at all gives \<open>NaN\<close>. Whatever follows the digits is
  ignored.
\<close>

definition is_space :: "char \<Rightarrow> bool" where
  "is_space c \<longleftrightarrow> c \<in> set [CHR '' '', CHR 0x09, CHR 0x0A, CHR 0x0B, CHR 0x0C, CHR 0x0D]"

definition is_digit :: "char \<Rightarrow> bool" where
  "is_digit c \<longleftrightarrow> c \<in> set ''0123456789''"

definition digit_val :: "char \<Rightarrow> nat" where
  "digit_val c = length (takeWhile (\<lambda>d. d \<noteq> c) ''0123456789'')"

definition digits_val :: "string \<Rightarrow> nat" where
  "digits_val ds = foldl (\<lambda>acc c. 10 * acc + digit_val c) 0 ds"

definition parseInt :: "string \<Rightarrow> int option" where
  "parseInt s =
     (let t = dropWhile is_space s;
          negative = (t \<noteq> [] \<and> hd t = CHR ''-'');
          signed = (t \<noteq> [] \<and> (hd t = CHR ''-'' \<or> hd t = CHR ''+''));
          ds = takeWhile is_digit (if signed then tl t else t)
      in if ds = [] then None
         else Some (if negative then - int (digits_val ds) else int (digits_val ds)))"

section \<open>errors.ts: the error classes\<close>

text \<open>
  One constructor per class, holding the fields the class constructor sets: the final
  \<open>message\<close>, the \<open>status\<close> of the base class, \<open>retryAfter\<close> of the rate limit error.
  \<open>JsError\<close> is any error that is not an instance of \<open>CladoError\<close>.
\<close>

datatype error =
    JsError string
  | CladoError nat string
  | CladoRateLimitError "int option" string
  | CladoAuthError string
  | CladoNotFoundError string
  | CladoValidationError string

fun instanceof_CladoError :: "error \<Rightarrow> bool" where
  "instanceof_CladoError (JsError m) = False"
| "instanceof_CladoError e = True"

fun status_of :: "error \<Rightarrow> nat option" where
  "status_of (JsError m) = None"
| "status_of (CladoError s m) = Some s"
| "status_of (CladoRateLimitError r m) = Some 429"
| "status_of (CladoAuthError m) = Some 401"
| "status_of (CladoNotFoundError m) = Some 404"
| "status_of (CladoValidationError m) = Some 422"

fun message_of :: "error \<Rightarrow> string" where
  "message_of (JsError m) = m"
| "message_of (CladoError s m) = m"
| "message_of (CladoRateLimitError r m) = m"
| "message_of (CladoAuthError m) = m"
| "message_of (CladoNotFoundError m) = m"
| "message_of (CladoValidationError m) = m"

text \<open>
  \<open>super(`API request failed with status ${status}: ${message}`)\<close>, for a message that
  has been converted to the string \<open>s\<close>.
\<close>

definition api_message :: "nat \<Rightarrow> string \<Rightarrow> string" where
  "api_message st s = ''API request failed with status '' @ digits10 st @ '': '' @ s"

text \<open>
  The constructors. The parameter \<open>message\<close> is declared a string, and at run time it is
  whatever the caller passes: the request engine passes what it read from a parsed
  response body. Every constructor ends in the template literal of the base class, so
  \<open>new\<close> throws the \<open>TypeError\<close> when the message does not convert to a string, and
  returns the error object otherwise.
\<close>

definition new_CladoError :: "nat \<Rightarrow> json \<Rightarrow> error outcome" where
  "new_CladoError st message =
     (case String_json message of
        None \<Rightarrow> Throws TypeError_message
      | Some s \<Rightarrow> Returns (CladoError st (api_message st s)))"

definition new_CladoRateLimitError :: "int option \<Rightarrow> json option \<Rightarrow> error outcome" where
  "new_CladoRateLimitError retryAfter message =
     (case String_json
             (nullish_or message
                (JStr (''Rate limit exceeded, retry after '' @ show_number retryAfter @ ''s''))) of
        None \<Rightarrow> Throws TypeError_message
      | Some s \<Rightarrow> Returns (CladoRateLimitError retryAfter (api_message 429 s)))"

definition new_CladoAuthError :: "json option \<Rightarrow> error outcome" where
  "new_CladoAuthError message =
     (case String_json (nullish_or message (JStr ''Invalid or expired API key'')) of
        None \<Rightarrow> Throws TypeError_message
      | Some s \<Rightarrow> Returns (CladoAuthError (api_message 401 s)))"

definition new_CladoNotFoundError :: "json option \<Rightarrow> error outcome" where
  "new_CladoNotFoundError message =
     (case String_json (nullish_or message (JStr ''Resource not found'')) of
        None \<Rightarrow> Throws TypeError_message
      | Some s \<Rightarrow> Returns (CladoNotFoundError (api_message 404 s)))"

definition new_CladoValidationError :: "json \<Rightarrow> error outcome" where
  "new_CladoValidationError message =
     (case String_json message of
        None \<Rightarrow> Throws TypeError_message
      | Some s \<Rightarrow> Returns (CladoValidationError (api_message 422 s)))"

text \<open>
  \<open>throw new E(...)\<close>: what is thrown is the new error, or the \<open>TypeError\<close> of its
  constructor, which is not an instance of \<open>CladoError\<close>.
\<close>

definition throw_new :: "error outcome \<Rightarrow> error" where
  "throw_new r = (case r of Throws m \<Rightarrow> JsError m | Returns err \<Rightarrow> err)"

section \<open>utils.ts: URL builder, parameter normalizer, backoff\<close>

definition DEFAULT_BASE_URL :: string where
  "DEFAULT_BASE_URL = ''https://search.clado.ai''"

definition DEFAULT_maxRetries :: int where
  "DEFAULT_maxRetries = 3"

definition DEFAULT_initialDelayMs :: real where
  "DEFAULT_initialDelayMs = 1000"

definition DEFAULT_maxDelayMs :: real where
  "DEFAULT_maxDelayMs = 30000"

text \<open>
  A URL is kept structured: the base and the path that \<open>new URL(path, baseUrl)\<close> was
  given, and the entries of \<open>url.searchParams\<close>. Resolving the path against the base and
  percent-encoding in \<open>url.toString()\<close> are the platform's and are not modelled.
\<close>

record url =
  url_base :: string
  url_path :: string
  searchParams :: "(string \<times> string) list"

text \<open>\<open>searchParams.set\<close>: the first entry of the key is overwritten and any other is
  dropped; a new key is appended.\<close>

fun searchParams_set :: "string \<Rightarrow> string \<Rightarrow> (string \<times> string) list \<Rightarrow> (string \<times> string) list" where
  "searchParams_set k v [] = [(k, v)]"
| "searchParams_set k v ((k', v') # ps) =
     (if k' = k then (k, v) # filter (\<lambda>p. fst p \<noteq> k) ps
      else (k', v') # searchParams_set k v ps)"

fun add_param :: "string \<times> jsvalue \<Rightarrow> (string \<times> string) list \<Rightarrow> (string \<times> string) list" where
  "add_param (key, VUndefined) ps = ps"
| "add_param (key, VNull) ps = ps"
| "add_param (key, VArr items) ps = ps @ map (\<lambda>item. (key, item)) items"
| "add_param (key, v) ps = searchParams_set key (String_value v) ps"

definition buildUrl :: "string \<Rightarrow> string \<Rightarrow> jsvalue object option \<Rightarrow> url" where
  "buildUrl baseUrl path params =
     \<lparr>url_base = baseUrl, url_path = path,
      searchParams = (case params of None \<Rightarrow> [] | Some ps \<Rightarrow> fold add_param ps [])\<rparr>"

text \<open>The translation table of \<open>toSnakeCase\<close>.\<close>

definition snakeCaseMap :: "(string \<times> string) list" where
  "snakeCaseMap =
     [(''searchId'', ''search_id''),
      (''advancedFiltering'', ''advanced_filtering''),
      (''linkedinUrl'', ''linkedin_url''),
      (''enrichEmail'', ''enrich_email''),
      (''enrichPhone'', ''enrich_phone''),
      (''includePosts'', ''include_posts''),
      (''includeExperience'', ''include_experience''),
      (''includeEducation'', ''include_education''),
      (''postUrl'', ''post_url''),
      (''reactionType'', ''reaction_type'')]"

text \<open>
  \<open>const snakeKey = snakeCaseMap[key] ?? key\<close>, as the key that
  \<open>result[snakeKey] = value\<close> then writes. The table is an object literal, so the
  property read finds an own entry of the table or else a member that the table inherits
  from \<open>Object.prototype\<close>; only a key that is neither is left as it is. An inherited
  member is a function or an object, and as a property key it stands for its string
  form. What the table inherits is the platform's: \<open>inherited\<close> gives, for the name of
  an inherited member, the string form of its value, and \<open>None\<close> for any other name.
\<close>

definition snakeKey :: "(string \<Rightarrow> string option) \<Rightarrow> string \<Rightarrow> string" where
  "snakeKey inherited key =
     (case map_of snakeCaseMap key of
        Some s \<Rightarrow> s
      | None \<Rightarrow> (case inherited key of Some p \<Rightarrow> p | None \<Rightarrow> key))"

definition toSnakeCase :: "(string \<Rightarrow> string option) \<Rightarrow> 'v object \<Rightarrow> 'v object" where
  "toSnakeCase inherited obj =
     fold (\<lambda>(key, v) result. assign (snakeKey inherited key) v result) obj []"

text \<open>
  The members of the standard \<open>Object.prototype\<close>, each with the string form of its
  value: a built-in function prints as \<open>function name() { [native code] }\<close>, and the
  accessor \<open>__proto__\<close> reads as \<open>Object.prototype\<close> itself, which prints as
  \<open>[object Object]\<close>. A platform can have other members (Deno removes the accessor
  \<open>__proto__\<close> unless told not to; a program can add members of its own), which is why
  \<open>toSnakeCase\<close> takes them as an argument.
\<close>

definition native_code :: "string \<Rightarrow> string" where
  "native_code name = ''function '' @ name @ ''() { [native code] }''"

definition Object_prototype :: "(string \<times> string) list" where
  "Object_prototype =
     [(''constructor'', native_code ''Object''),
      (''__defineGetter__'', native_code ''__defineGetter__''),
      (''__defineSetter__'', native_code ''__defineSetter__''),
      (''hasOwnProperty'', native_code ''hasOwnProperty''),
      (''__lookupGetter__'', native_code ''__lookupGetter__''),
      (''__lookupSetter__'', native_code ''__lookupSetter__''),
      (''isPrototypeOf'', native_code ''isPrototypeOf''),
      (''propertyIsEnumerable'', native_code ''propertyIsEnumerable''),
      (''toString'', native_code ''toString''),
      (''valueOf'', native_code ''valueOf''),
      (''__proto__'', ''[object Object]''),
      (''toLocaleString'', native_code ''toLocaleString'')]"

text \<open>
  \<open>calculateBackoff\<close>, over the reals, with the draw of \<open>Math.random()\<close> (a number in
  \<open>[0, 1)\<close>) as the last argument.
\<close>

definition calculateBackoff :: "nat \<Rightarrow> real \<Rightarrow> real \<Rightarrow> real \<Rightarrow> real" where
  "calculateBackoff attempt initialDelayMs maxDelayMs rnd =
     (let delay = initialDelayMs * 2 ^ attempt;
          jitter = delay * 0.1 * (rnd * 2 - 1)
      in min (delay + jitter) maxDelayMs)"

section \<open>utils.ts: the request engine\<close>

text \<open>
  A \<open>Response\<close>: \<open>headers_get\<close> is \<open>response.headers.get\<close>, \<open>body_text\<close> is what
  \<open>await response.text()\<close> does.
\<close>

record response =
  status :: nat
  statusText :: string
  headers_get :: "string \<Rightarrow> string option"
  body_text :: "string outcome"

definition ok :: "response \<Rightarrow> bool" where
  "ok r \<longleftrightarrow> 200 \<le> status r \<and> status r \<le> 299"

text \<open>What \<open>fetch(url, {method, headers, body})\<close> is called with.\<close>

record http_request =
  req_url :: url
  req_method :: string
  req_headers :: "string object"
  req_body :: "string option"

text \<open>
  The effects of the engine, in the order they happen: a network attempt, or a sleep of
  so many milliseconds (\<open>None\<close> is \<open>NaN\<close>, which \<open>setTimeout\<close> takes as no delay).
\<close>

datatype event = Fetch http_request | Sleep "real option"

fun is_Fetch :: "event \<Rightarrow> bool" where
  "is_Fetch (Fetch rq) = True"
| "is_Fetch (Sleep ms) = False"

definition fetches :: "event list \<Rightarrow> nat" where
  "fetches tr = length (filter is_Fetch tr)"

definition sleeps :: "event list \<Rightarrow> real option list" where
  "sleeps tr = concat (map (\<lambda>e. case e of Sleep ms \<Rightarrow> [ms] | Fetch rq \<Rightarrow> []) tr)"

text \<open>
  The platform the engine runs on. The network and the random number generator answer
  as a function of everything that has happened so far (the trace) and of the request;
  \<open>JSON.parse\<close> and \<open>JSON.stringify\<close> are functions of their argument.
\<close>

record env =
  fetch :: "event list \<Rightarrow> http_request \<Rightarrow> response outcome"
  Math_random :: "event list \<Rightarrow> real"
  JSON_parse :: "string \<Rightarrow> json outcome"
  JSON_stringify :: "json \<Rightarrow> string"

record RequestOptions =
  http_method :: "string option"
  body :: "json option"
  headers :: "string object option"
  retry :: "bool option"
  maxRetries :: "int option"

definition no_options :: RequestOptions where
  "no_options = \<lparr>http_method = None, body = None, headers = None, retry = None, maxRetries = None\<rparr>"

definition sleep :: "real option \<Rightarrow> event list \<Rightarrow> event list" where
  "sleep ms tr = tr @ [Sleep ms]"

text \<open>\<open>if (body)\<close>, where \<open>None\<close> is an absent body.\<close>

fun body_truthy :: "json option \<Rightarrow> bool" where
  "body_truthy None = False"
| "body_truthy (Some b) = truthy b"

text \<open>
  \<open>parseErrorResponse\<close>. Reading a property of \<open>null\<close> throws inside the inner
  \<open>try\<close>, as a failed \<open>JSON.parse\<close> does; a failed \<open>response.text()\<close> is caught by the
  outer one.
\<close>

definition text_or_statusText :: "string \<Rightarrow> response \<Rightarrow> json" where
  "text_or_statusText t response = JStr (if t \<noteq> [] then t else statusText response)"

fun first_truthy :: "json option list \<Rightarrow> json \<Rightarrow> json" where
  "first_truthy [] d = d"
| "first_truthy (None # xs) d = first_truthy xs d"
| "first_truthy (Some j # xs) d = (if truthy j then j else first_truthy xs d)"

definition parseErrorResponse :: "env \<Rightarrow> response \<Rightarrow> json" where
  "parseErrorResponse e response =
     (case body_text response of
        Throws m \<Rightarrow> JStr (statusText response)
      | Returns t \<Rightarrow>
          (case JSON_parse e t of
             Throws m \<Rightarrow> text_or_statusText t response
           | Returns JNull \<Rightarrow> text_or_statusText t response
           | Returns j \<Rightarrow>
               first_truthy [prop_of j ''detail'', prop_of j ''error'', prop_of j ''message'']
                 (JStr t)))"

text \<open>The headers object the engine builds before the loop.\<close>

definition requestHeaders :: "string \<Rightarrow> string object \<Rightarrow> json option \<Rightarrow> string object" where
  "requestHeaders apiKey hdrs b =
     (let h = spread [(''Authorization'', ''Bearer '' @ apiKey), (''Accept'', ''application/json'')]
                hdrs
      in if body_truthy b then assign ''Content-Type'' ''application/json'' h else h)"

text \<open>\<open>response.headers.get("Retry-After") || "60"\<close>\<close>

definition retryAfter_header :: "response \<Rightarrow> string" where
  "retryAfter_header response =
     (case headers_get response ''Retry-After'' of
        None \<Rightarrow> ''60''
      | Some h \<Rightarrow> if h \<noteq> [] then h else ''60'')"

text \<open>
  One pass through the \<open>try\<close> block of the loop: it returns the parsed body, throws
  (into the \<open>catch\<close> of the same iteration), or has slept and asks for the next
  iteration with \<open>attempt + 1\<close>.
\<close>

datatype attempt_result = Return json | Throw error | Continue

definition try_block ::
  "env \<Rightarrow> http_request \<Rightarrow> bool \<Rightarrow> int \<Rightarrow> nat \<Rightarrow> event list \<Rightarrow> attempt_result \<times> event list" where
  "try_block e rq rt mr attempt tr =
     (let tr1 = tr @ [Fetch rq] in
      case fetch e tr rq of
        Throws m \<Rightarrow> (Throw (JsError m), tr1)
      | Returns response \<Rightarrow>
          if ok response then
            (case body_text response of
               Throws m \<Rightarrow> (Throw (JsError m), tr1)
             | Returns t \<Rightarrow>
                 if t = [] then (Return (JObj []), tr1)
                 else (case JSON_parse e t of
                         Throws m \<Rightarrow> (Throw (JsError m), tr1)
                       | Returns j \<Rightarrow> (Return j, tr1)))
          else
            (let errorMessage = parseErrorResponse e response in
             if status response = 401 then
               (Throw (throw_new (new_CladoAuthError (Some errorMessage))), tr1)
             else if status response = 404 then
               (Throw (throw_new (new_CladoNotFoundError (Some errorMessage))), tr1)
             else if status response = 422 then
               (Throw (throw_new (new_CladoValidationError errorMessage)), tr1)
             else if status response = 429 then
               (let retryAfter = parseInt (retryAfter_header response) in
                if rt \<and> int attempt < mr then
                  (Continue, sleep (map_option (\<lambda>n. real_of_int (n * 1000)) retryAfter) tr1)
                else (Throw (throw_new (new_CladoRateLimitError retryAfter (Some errorMessage))),
                      tr1))
             else if 500 \<le> status response \<and> rt \<and> int attempt < mr then
               (Continue,
                sleep (Some (calculateBackoff attempt DEFAULT_initialDelayMs DEFAULT_maxDelayMs
                               (Math_random e tr1))) tr1)
             else (Throw (throw_new (new_CladoError (status response) errorMessage)), tr1)))"

text \<open>
  The \<open>while (attempt <= maxRetries)\<close> loop with its \<open>catch\<close>, and the \<open>throw\<close> after
  it. The result is the error thrown or the value returned, with the trace.
\<close>

function request_loop ::
  "env \<Rightarrow> http_request \<Rightarrow> bool \<Rightarrow> int \<Rightarrow> nat \<Rightarrow> error option \<Rightarrow> event list
   \<Rightarrow> (error + json) \<times> event list" where
  "request_loop e rq rt mr attempt lastError tr =
     (if int attempt \<le> mr then
        (case try_block e rq rt mr attempt tr of
           (Return j, tr1) \<Rightarrow> (Inr j, tr1)
         | (Continue, tr1) \<Rightarrow> request_loop e rq rt mr (attempt + 1) lastError tr1
         | (Throw err, tr1) \<Rightarrow>
             if instanceof_CladoError err then (Inl err, tr1)
             else if rt \<and> int attempt < mr then
               request_loop e rq rt mr (attempt + 1) (Some err)
                 (sleep (Some (calculateBackoff attempt DEFAULT_initialDelayMs DEFAULT_maxDelayMs
                                 (Math_random e tr1))) tr1)
             else (Inl (throw_new (new_CladoError 0 (JStr (''Network error: '' @ message_of err)))),
                   tr1))
      else
        (Inl (case lastError of
                Some err \<Rightarrow> err
              | None \<Rightarrow> throw_new (new_CladoError 0 (JStr ''Request failed after retries''))), tr))"
  by pat_completeness auto
termination
  by (relation "measure (\<lambda>(e, rq, rt, mr, attempt, lastError, tr). nat (mr + 1 - int attempt))")
    auto

declare request_loop.simps [simp del]

text \<open>What the engine passes to every \<open>fetch\<close> of one call.\<close>

definition request_init :: "env \<Rightarrow> url \<Rightarrow> string \<Rightarrow> RequestOptions \<Rightarrow> http_request" where
  "request_init e u apiKey options =
     \<lparr>req_url = u,
      req_method = (case http_method options of None \<Rightarrow> ''GET'' | Some m \<Rightarrow> m),
      req_headers =
        requestHeaders apiKey (case headers options of None \<Rightarrow> [] | Some h \<Rightarrow> h) (body options),
      req_body =
        (case body options of
           None \<Rightarrow> None
         | Some b \<Rightarrow> if truthy b then Some (JSON_stringify e b) else None)\<rparr>"

definition request ::
  "env \<Rightarrow> url \<Rightarrow> string \<Rightarrow> RequestOptions \<Rightarrow> event list \<Rightarrow> (error + json) \<times> event list" where
  "request e u apiKey options tr =
     request_loop e (request_init e u apiKey options)
       (case retry options of None \<Rightarrow> True | Some b \<Rightarrow> b)
       (case maxRetries options of None \<Rightarrow> DEFAULT_maxRetries | Some n \<Rightarrow> n)
       0 None tr"

section \<open>client.ts: the pagination iterator and the job poller\<close>

text \<open>
  The two loops of the client call \<open>this.searchPeople\<close> and
  \<open>this.getDeepResearchStatus\<close>, which go through the request engine to the remote
  service, read the clock and sleep. The remote service and the clock are the
  environment: each answers as a function of the calls made so far (the trace) and of
  the argument, at the result type the method declares; a call that throws is
  \<open>Inl\<close>.
\<close>

record 'r SearchPeopleResponse =
  results :: "'r list"
  total :: int
  query :: string
  search_id :: string

text \<open>
  The status of a job is the string the service sent; \<open>completed\<close> and \<open>failed\<close> are
  the two the poller compares it with. The type declares \<open>pending\<close>, \<open>searching\<close>,
  \<open>in_progress\<close>, \<open>completed\<close> and \<open>failed\<close>.
\<close>

type_synonym DeepResearchStatus = string

text \<open>The fields \<open>status\<close>, \<open>results\<close>, \<open>total\<close> and \<open>error\<close> of the status response
  are prefixed with \<open>job_\<close>.\<close>

record 'r DeepResearchStatusResponse =
  job_id :: string
  job_status :: DeepResearchStatus
  progress :: "int option"
  job_results :: "'r list option"
  job_total :: "int option"
  job_error :: "string option"
  created_at :: "string option"
  updated_at :: "string option"

record WaitForDeepResearchOptions =
  pollInterval :: "int option"
  timeout :: "int option"

datatype client_event =
    SearchPeople "jsvalue object"
  | GetDeepResearchStatus string
  | Slept int

record 'r client =
  searchPeople :: "client_event list \<Rightarrow> jsvalue object \<Rightarrow> error + 'r SearchPeopleResponse"
  getDeepResearchStatus ::
    "client_event list \<Rightarrow> string \<Rightarrow> error + 'r DeepResearchStatusResponse"
  Date_now :: "client_event list \<Rightarrow> int"

text \<open>
  \<open>options.limit ?? 30\<close>, for a limit that is a number, \<open>undefined\<close>, \<open>null\<close> or
  absent, as \<open>limit?: number\<close> declares it.
\<close>

definition limit_of :: "jsvalue object \<Rightarrow> int" where
  "limit_of options = (case map_of options ''limit'' of Some (VNum n) \<Rightarrow> n | _ \<Rightarrow> 30)"

text \<open>\<open>{...options, searchId, offset, limit}\<close>\<close>

definition page_options :: "jsvalue object \<Rightarrow> jsvalue \<Rightarrow> int \<Rightarrow> int \<Rightarrow> jsvalue object" where
  "page_options options searchId offset limit =
     spread options [(''searchId'', searchId), (''offset'', VNum offset), (''limit'', VNum limit)]"

text \<open>
  The \<open>while (true)\<close> loop of the generator \<open>searchPeopleAll\<close>, run by a consumer that
  takes every item. The result is the items yielded so far in order, the error thrown
  if the run ended in one, and the trace; \<open>None\<close> is a run that never ends.
\<close>

partial_function (option) searchPeopleAll_loop ::
  "'r client \<Rightarrow> jsvalue object \<Rightarrow> jsvalue \<Rightarrow> int \<Rightarrow> int \<Rightarrow> 'r list \<Rightarrow> client_event list
   \<Rightarrow> ('r list \<times> error option \<times> client_event list) option" where
  "searchPeopleAll_loop c options searchId offset limit yielded tr =
     (let rq = page_options options searchId offset limit;
          tr1 = tr @ [SearchPeople rq]
      in case searchPeople c tr rq of
           Inl err \<Rightarrow> Some (yielded, Some err, tr1)
         | Inr response \<Rightarrow>
             (let yielded1 = yielded @ results response;
                  n = int (length (results response))
              in if n < limit \<or> offset + n \<ge> total response then Some (yielded1, None, tr1)
                 else searchPeopleAll_loop c options (VStr (search_id response)) (offset + n)
                        limit yielded1 tr1))"

definition searchPeopleAll ::
  "'r client \<Rightarrow> jsvalue object \<Rightarrow> client_event list
   \<Rightarrow> ('r list \<times> error option \<times> client_event list) option" where
  "searchPeopleAll c options tr =
     searchPeopleAll_loop c options VUndefined 0 (limit_of options) [] tr"

text \<open>The URL that \<open>searchPeople\<close> requests for an options object, on the standard
  \<open>Object.prototype\<close>.\<close>

definition searchPeople_url :: "string \<Rightarrow> jsvalue object \<Rightarrow> url" where
  "searchPeople_url baseUrl options =
     buildUrl baseUrl ''/api/search'' (Some (toSnakeCase (map_of Object_prototype) options))"

text \<open>
  The \<open>while (true)\<close> loop of \<open>waitForDeepResearch\<close>; \<open>None\<close> is a run that never
  ends.
\<close>

partial_function (option) waitForDeepResearch_loop ::
  "'r client \<Rightarrow> string \<Rightarrow> int \<Rightarrow> int \<Rightarrow> int \<Rightarrow> client_event list
   \<Rightarrow> ((error + 'r DeepResearchStatusResponse) \<times> client_event list) option" where
  "waitForDeepResearch_loop c jobId interval tmo startTime tr =
     (let tr1 = tr @ [GetDeepResearchStatus jobId]
      in case getDeepResearchStatus c tr jobId of
           Inl err \<Rightarrow> Some (Inl err, tr1)
         | Inr st \<Rightarrow>
             if job_status st = ''completed'' then Some (Inr st, tr1)
             else if job_status st = ''failed'' then
               Some (Inl (throw_new (new_CladoError 500
                                       (case job_error st of
                                          None \<Rightarrow> JStr ''Deep research job failed''
                                        | Some m \<Rightarrow> JStr m))), tr1)
             else if Date_now c tr1 - startTime > tmo then
               Some (Inl (throw_new (new_CladoError 408
                                       (JStr (''Deep research job timed out after '' @ show_int tmo
                                              @ ''ms'')))),
                     tr1)
             else waitForDeepResearch_loop c jobId interval tmo startTime (tr1 @ [Slept interval]))"

definition waitForDeepResearch ::
  "'r client \<Rightarrow> string \<Rightarrow> WaitForDeepResearchOptions \<Rightarrow> client_event list
   \<Rightarrow> ((error + 'r DeepResearchStatusResponse) \<times> client_event list) option" where
  "waitForDeepResearch c jobId options tr =
     waitForDeepResearch_loop c jobId
       (case pollInterval options of None \<Rightarrow> 2000 | Some i \<Rightarrow> i)
       (case timeout options of None \<Rightarrow> 300000 | Some t \<Rightarrow> t)
       (Date_now c tr) tr"

text \<open>
  What the \<open>try\<close> block throws on a 429 or a 5xx response when it does not retry, and
  on a 401, 404 or 422 response.
\<close>

definition transient_error :: "env \<Rightarrow> response \<Rightarrow> error" where
  "transient_error e r =
     throw_new
       (if status r = 429
        then new_CladoRateLimitError (parseInt (retryAfter_header r)) (Some (parseErrorResponse e r))
        else new_CladoError (status r) (parseErrorResponse e r))"

definition typed_error :: "env \<Rightarrow> response \<Rightarrow> error" where
  "typed_error e r =
     throw_new
       (if status r = 401 then new_CladoAuthError (Some (parseErrorResponse e r))
        else if status r = 404 then new_CladoNotFoundError (Some (parseErrorResponse e r))
        else new_CladoValidationError (parseErrorResponse e r))"

text \<open>
  What the \<open>catch\<close> block makes of an error thrown in the \<open>try\<close> block when it does not
  retry.
\<close>

definition surfaced :: "error \<Rightarrow> error" where
  "surfaced err =
     (if instanceof_CladoError err then err
      else throw_new (new_CladoError 0 (JStr (''Network error: '' @ message_of err))))"

text \<open>
  The trace of \<open>n\<close> full rounds of the poller (a status call and a sleep each), and the
  way the poller ends on a status response that ends it.
\<close>

definition rounds :: "string \<Rightarrow> int \<Rightarrow> nat \<Rightarrow> client_event list" where
  "rounds jobId interval n = concat (replicate n [GetDeepResearchStatus jobId, Slept interval])"


text \<open>
  The two methods as the class defines them, down to the network: one GET through the
  request engine with its default options, the parsed body being the result. In the
  loops above their outcome is what the environment \<open>c\<close> supplies.
\<close>

definition client_searchPeople ::
  "env \<Rightarrow> string \<Rightarrow> string \<Rightarrow> jsvalue object \<Rightarrow> event list \<Rightarrow> (error + json) \<times> event list" where
  "client_searchPeople e baseUrl apiKey options tr =
     request e (searchPeople_url baseUrl options) apiKey no_options tr"

definition client_getDeepResearchStatus ::
  "env \<Rightarrow> string \<Rightarrow> string \<Rightarrow> string \<Rightarrow> event list \<Rightarrow> (error + json) \<times> event list" where
  "client_getDeepResearchStatus e baseUrl apiKey jobId tr =
     request e (buildUrl baseUrl (''/api/search/deep_research/'' @ jobId) None) apiKey no_options tr"

section \<open>Example environments\<close>

text \<open>Concrete servers and inputs, on which the theorems below are run.\<close>

definition example_url :: url where
  "example_url = buildUrl ''https://search.clado.ai'' ''/api/credits'' None"

text \<open>
  A response body whose \<open>detail\<close> is an object with an entry \<open>toString\<close>: the JSON text
  \<open>{"detail":{"toString":"x"}}\<close>.
\<close>

definition quoted :: "string \<Rightarrow> string" where
  "quoted s = CHR 0x22 # s @ [CHR 0x22]"

definition toString_detail :: string where
  "toString_detail =
     ''{'' @ quoted ''detail'' @ '':{'' @ quoted ''toString'' @ '':'' @ quoted ''x'' @ ''}}''"

definition example_JSON_parse :: "string \<Rightarrow> json outcome" where
  "example_JSON_parse s =
     (if s = ''{}'' then Returns (JObj [])
      else if s = ''null'' then Returns JNull
      else if s = toString_detail then Returns (JObj [(''detail'', JObj [(''toString'', JStr ''x'')])])
      else Throws ''Unexpected token in JSON'')"

definition plain_response :: "nat \<Rightarrow> string \<Rightarrow> (string \<times> string) list \<Rightarrow> string \<Rightarrow> response" where
  "plain_response st phrase hdrs txt =
     \<lparr>status = st, statusText = phrase, headers_get = map_of hdrs, body_text = Returns txt\<rparr>"

definition server_always :: "response \<Rightarrow> env" where
  "server_always r =
     \<lparr>fetch = (\<lambda>h q. Returns r), Math_random = (\<lambda>h. 1 / 2),
      JSON_parse = example_JSON_parse, JSON_stringify = (\<lambda>j. ''{}'')\<rparr>"

definition html_200 :: response where
  "html_200 = plain_response 200 ''OK'' [] ''<html>Bad gateway</html>''"

definition rate_limited :: "(string \<times> string) list \<Rightarrow> response" where
  "rate_limited hdrs = plain_response 429 ''Too Many Requests'' hdrs ''slow down''"

text \<open>
  A remote job whose status calls answer from a script (and \<open>pending\<close> after it), on a
  clock that advances by 50 ms for each call and by the time slept.
\<close>

fun duration :: "client_event \<Rightarrow> int" where
  "duration (SearchPeople options) = 50"
| "duration (GetDeepResearchStatus jobId) = 50"
| "duration (Slept ms) = ms"

definition elapsed :: "client_event list \<Rightarrow> int" where
  "elapsed h = sum_list (map duration h)"

fun is_poll :: "client_event \<Rightarrow> bool" where
  "is_poll (GetDeepResearchStatus jobId) = True"
| "is_poll ev = False"

definition status_response :: "DeepResearchStatus \<Rightarrow> string option \<Rightarrow> nat DeepResearchStatusResponse" where
  "status_response s err =
     \<lparr>job_id = ''job-123'', job_status = s, progress = None, job_results = None,
      job_total = (if s = ''completed'' then Some 1 else None), job_error = err,
      created_at = None, updated_at = None\<rparr>"

definition polling_client :: "nat DeepResearchStatusResponse list \<Rightarrow> nat client" where
  "polling_client script =
     \<lparr>searchPeople = (\<lambda>h options. Inl (JsError ''not used'')),
      getDeepResearchStatus =
        (\<lambda>h jobId. Inr (if length (filter is_poll h) < length script
                        then script ! length (filter is_poll h)
                        else status_response ''pending'' None)),
      Date_now = elapsed\<rparr>"

text \<open>
  A remote search that holds a list of items and serves the page at the requested
  offset and limit, reporting the length of the list as the total, with one search
  token; and two options objects, the second with a stale cursor of the caller's.
\<close>

definition num_param :: "jsvalue object \<Rightarrow> string \<Rightarrow> int" where
  "num_param options k = (case map_of options k of Some (VNum n) \<Rightarrow> n | _ \<Rightarrow> 0)"

definition paged_client :: "'r list \<Rightarrow> string \<Rightarrow> 'r client" where
  "paged_client items tok =
     \<lparr>searchPeople =
        (\<lambda>h options.
           Inr \<lparr>results = take (nat (num_param options ''limit''))
                            (drop (nat (num_param options ''offset'')) items),
                total = int (length items),
                query = (case map_of options ''query'' of Some (VStr q) \<Rightarrow> q | _ \<Rightarrow> []),
                search_id = tok\<rparr>),
      getDeepResearchStatus = (\<lambda>h jobId. Inl (JsError ''not used'')),
      Date_now = elapsed\<rparr>"

definition example_options :: "jsvalue object" where
  "example_options = [(''query'', VStr ''engineers''), (''limit'', VNum 30)]"

definition stale_options :: "jsvalue object" where
  "stale_options =
     [(''query'', VStr ''engineers''), (''searchId'', VStr ''stale-token''), (''offset'', VNum 90)]"

section \<open>Lemmas\<close>

subsection \<open>The request engine: unfolding the loop\<close>

lemma try_block_disj:
  "(\<exists>j. try_block e rq rt mr a tr = (Return j, tr @ [Fetch rq]))
   \<or> (\<exists>err. try_block e rq rt mr a tr = (Throw err, tr @ [Fetch rq]))
   \<or> (\<exists>ms. try_block e rq rt mr a tr = (Continue, tr @ [Fetch rq, Sleep ms]) \<and> rt \<and> int a < mr)"
  unfolding try_block_def sleep_def Let_def
  by (simp split: outcome.split)

lemma try_block_cases:
  obtains (ret) j where "try_block e rq rt mr a tr = (Return j, tr @ [Fetch rq])"
  | (thr) err where "try_block e rq rt mr a tr = (Throw err, tr @ [Fetch rq])"
  | (cont) ms where "try_block e rq rt mr a tr = (Continue, tr @ [Fetch rq, Sleep ms])" "rt" "int a < mr"
  using try_block_disj [of e rq rt mr a tr] by blast

lemma fetches_append [simp]: "fetches (tr @ es) = fetches tr + fetches es"
  by (simp add: fetches_def)

lemma fetches_simps [simp]: "fetches [] = 0" "fetches (Fetch rq # es) = Suc (fetches es)" "fetches (Sleep ms # es) = fetches es"
  by (simp_all add: fetches_def)

lemma sleeps_append [simp]: "sleeps (tr @ es) = sleeps tr @ sleeps es"
  by (simp add: sleeps_def)

lemma sleeps_simps [simp]: "sleeps [] = []" "sleeps (Fetch rq # es) = sleeps es" "sleeps (Sleep ms # es) = ms # sleeps es"
  by (simp_all add: sleeps_def)

lemma loop_exit:
  "\<not> int a \<le> mr \<Longrightarrow> request_loop e rq rt mr a le tr =
     (Inl (case le of
             Some err \<Rightarrow> err
           | None \<Rightarrow> throw_new (new_CladoError 0 (JStr ''Request failed after retries''))), tr)"
  by (simp add: request_loop.simps)

lemma loop_return:
  "int a \<le> mr \<Longrightarrow> try_block e rq rt mr a tr = (Return j, tr1) \<Longrightarrow>
   request_loop e rq rt mr a le tr = (Inr j, tr1)"
  by (simp add: request_loop.simps)

lemma loop_continue:
  "int a \<le> mr \<Longrightarrow> try_block e rq rt mr a tr = (Continue, tr1) \<Longrightarrow>
   request_loop e rq rt mr a le tr = request_loop e rq rt mr (a + 1) le tr1"
  by (subst request_loop.simps) simp

lemma loop_throw_clado:
  "int a \<le> mr \<Longrightarrow> try_block e rq rt mr a tr = (Throw err, tr1) \<Longrightarrow> instanceof_CladoError err \<Longrightarrow>
   request_loop e rq rt mr a le tr = (Inl err, tr1)"
  by (simp add: request_loop.simps)

lemma loop_throw_retry:
  "int a \<le> mr \<Longrightarrow> try_block e rq rt mr a tr = (Throw err, tr1) \<Longrightarrow> \<not> instanceof_CladoError err \<Longrightarrow>
   rt \<Longrightarrow> int a < mr \<Longrightarrow>
   request_loop e rq rt mr a le tr =
     request_loop e rq rt mr (a + 1) (Some err)
       (sleep (Some (calculateBackoff a DEFAULT_initialDelayMs DEFAULT_maxDelayMs (Math_random e tr1))) tr1)"
  by (subst request_loop.simps) simp

lemma loop_throw_network:
  "int a \<le> mr \<Longrightarrow> try_block e rq rt mr a tr = (Throw err, tr1) \<Longrightarrow> \<not> instanceof_CladoError err \<Longrightarrow>
   \<not> (rt \<and> int a < mr) \<Longrightarrow>
   request_loop e rq rt mr a le tr =
     (Inl (throw_new (new_CladoError 0 (JStr (''Network error: '' @ message_of err)))), tr1)"
  by (subst request_loop.simps) auto

lemma loop_throw_final:
  "int a \<le> mr \<Longrightarrow> try_block e rq rt mr a tr = (Throw err, tr1) \<Longrightarrow> \<not> (rt \<and> int a < mr) \<Longrightarrow>
   request_loop e rq rt mr a le tr = (Inl (surfaced err), tr1)"
  by (subst request_loop.simps) (auto simp add: surfaced_def)

lemma request_loop_budget:
  "fetches (snd (request_loop e rq rt mr a le tr)) \<le> fetches tr + nat (mr + 1 - int a)
   \<and> length (sleeps (snd (request_loop e rq rt mr a le tr))) \<le> length (sleeps tr) + nat (mr - int a)"
proof (induction e rq rt mr a le tr rule: request_loop.induct)
  case (1 e rq rt mr a le tr)
  show ?case
  proof (cases "int a \<le> mr")
    case False
    then show ?thesis by (simp add: loop_exit)
  next
    case True
    show ?thesis
    proof (cases rule: try_block_cases [of e rq rt mr a tr])
      case (ret j)
      with True show ?thesis by (simp add: loop_return)
    next
      case (thr err)
      show ?thesis
      proof (cases "instanceof_CladoError err")
        case True
        with \<open>int a \<le> mr\<close> thr show ?thesis by (simp add: loop_throw_clado)
      next
        case nc: False
        show ?thesis
        proof (cases "rt \<and> int a < mr")
          case False
          with True thr nc show ?thesis by (simp add: loop_throw_network)
        next
          case c: True
          then have rt and lt: "int a < mr" by simp_all
          note eq = loop_throw_retry [OF True thr nc \<open>rt\<close> lt, of le]
          from "1.IH"(1) [OF True thr [symmetric] refl nc c] lt show ?thesis
            unfolding eq sleep_def by simp arith
        qed
      qed
    next
      case (cont ms)
      note eq = loop_continue [OF True cont(1), of le]
      from "1.IH"(2) [OF True cont(1) [symmetric] refl] cont(3) show ?thesis
        unfolding eq by simp arith
    qed
  qed
qed

lemma try_block_401:
  "fetch e tr rq = Returns r \<Longrightarrow> status r = 401 \<Longrightarrow>
   try_block e rq rt mr a tr =
     (Throw (throw_new (new_CladoAuthError (Some (parseErrorResponse e r)))), tr @ [Fetch rq])"
  by (simp add: try_block_def ok_def Let_def)

lemma try_block_404:
  "fetch e tr rq = Returns r \<Longrightarrow> status r = 404 \<Longrightarrow>
   try_block e rq rt mr a tr =
     (Throw (throw_new (new_CladoNotFoundError (Some (parseErrorResponse e r)))), tr @ [Fetch rq])"
  by (simp add: try_block_def ok_def Let_def)

lemma try_block_422:
  "fetch e tr rq = Returns r \<Longrightarrow> status r = 422 \<Longrightarrow>
   try_block e rq rt mr a tr =
     (Throw (throw_new (new_CladoValidationError (parseErrorResponse e r))), tr @ [Fetch rq])"
  by (simp add: try_block_def ok_def Let_def)

lemma try_block_429_retry:
  "fetch e tr rq = Returns r \<Longrightarrow> status r = 429 \<Longrightarrow> rt \<Longrightarrow> int a < mr \<Longrightarrow>
   try_block e rq rt mr a tr =
     (Continue, tr @ [Fetch rq, Sleep (map_option (\<lambda>n. real_of_int (n * 1000)) (parseInt (retryAfter_header r)))])"
  by (simp add: try_block_def ok_def Let_def sleep_def)

lemma try_block_429_final:
  "fetch e tr rq = Returns r \<Longrightarrow> status r = 429 \<Longrightarrow> \<not> (rt \<and> int a < mr) \<Longrightarrow>
   try_block e rq rt mr a tr =
     (Throw (throw_new (new_CladoRateLimitError (parseInt (retryAfter_header r))
                          (Some (parseErrorResponse e r)))), tr @ [Fetch rq])"
  by (simp add: try_block_def ok_def Let_def sleep_def)

lemma try_block_5xx_retry:
  "fetch e tr rq = Returns r \<Longrightarrow> 500 \<le> status r \<Longrightarrow> rt \<Longrightarrow> int a < mr \<Longrightarrow>
   try_block e rq rt mr a tr =
     (Continue, tr @ [Fetch rq, Sleep (Some (calculateBackoff a DEFAULT_initialDelayMs DEFAULT_maxDelayMs (Math_random e (tr @ [Fetch rq]))))])"
  by (simp add: try_block_def ok_def Let_def sleep_def)

lemma try_block_5xx_final:
  "fetch e tr rq = Returns r \<Longrightarrow> 500 \<le> status r \<Longrightarrow> \<not> (rt \<and> int a < mr) \<Longrightarrow>
   try_block e rq rt mr a tr =
     (Throw (throw_new (new_CladoError (status r) (parseErrorResponse e r))), tr @ [Fetch rq])"
  by (simp add: try_block_def ok_def Let_def sleep_def)

lemma throw_new_string [simp]:
  "throw_new (new_CladoError st (JStr m)) = CladoError st (api_message st m)"
  by (simp add: throw_new_def new_CladoError_def)

lemma first_truthy_not_null: "d \<noteq> JNull \<Longrightarrow> first_truthy xs d \<noteq> JNull"
  by (induction xs d rule: first_truthy.induct) auto

lemma parseErrorResponse_not_null: "parseErrorResponse e r \<noteq> JNull"
  by (simp add: parseErrorResponse_def text_or_statusText_def first_truthy_not_null
      split: outcome.split json.split)

lemma nullish_or_Some: "m \<noteq> JNull \<Longrightarrow> nullish_or (Some m) d = m"
  by (cases m) simp_all

lemma transient_error_printable:
  assumes "String_json (parseErrorResponse e r) = Some s"
  shows "transient_error e r =
     (if status r = 429
      then CladoRateLimitError (parseInt (retryAfter_header r)) (api_message 429 s)
      else CladoError (status r) (api_message (status r) s))"
  using assms
  by (simp add: transient_error_def throw_new_def new_CladoRateLimitError_def new_CladoError_def
      nullish_or_Some [OF parseErrorResponse_not_null])

lemma transient_error_unprintable:
  assumes "String_json (parseErrorResponse e r) = None"
  shows "transient_error e r = JsError TypeError_message"
  using assms
  by (simp add: transient_error_def throw_new_def new_CladoRateLimitError_def new_CladoError_def
      nullish_or_Some [OF parseErrorResponse_not_null])

lemma typed_error_printable:
  assumes "String_json (parseErrorResponse e r) = Some s"
  shows "typed_error e r =
     (if status r = 401 then CladoAuthError (api_message 401 s)
      else if status r = 404 then CladoNotFoundError (api_message 404 s)
      else CladoValidationError (api_message 422 s))"
  using assms
  by (simp add: typed_error_def throw_new_def new_CladoAuthError_def new_CladoNotFoundError_def
      new_CladoValidationError_def nullish_or_Some [OF parseErrorResponse_not_null])

lemma typed_error_unprintable:
  assumes "String_json (parseErrorResponse e r) = None"
  shows "typed_error e r = JsError TypeError_message"
  using assms
  by (simp add: typed_error_def throw_new_def new_CladoAuthError_def new_CladoNotFoundError_def
      new_CladoValidationError_def nullish_or_Some [OF parseErrorResponse_not_null])

lemma try_block_transient_final:
  assumes "fetch e tr rq = Returns r" "status r = 429 \<or> 500 \<le> status r" "\<not> (rt \<and> int a < mr)"
  shows "try_block e rq rt mr a tr = (Throw (transient_error e r), tr @ [Fetch rq])"
proof (cases "status r = 429")
  case True
  with try_block_429_final [OF assms(1) True assms(3)] show ?thesis
    by (simp add: transient_error_def)
next
  case False
  with assms(2) have "500 \<le> status r" by simp
  from try_block_5xx_final [OF assms(1) this assms(3)] False show ?thesis
    by (simp add: transient_error_def)
qed

lemma try_block_transient_retry:
  assumes "fetch e tr rq = Returns r" "status r = 429 \<or> 500 \<le> status r" "rt" "int a < mr"
  shows "\<exists>ms. try_block e rq rt mr a tr = (Continue, tr @ [Fetch rq, Sleep ms])"
proof (cases "status r = 429")
  case True
  from try_block_429_retry [OF assms(1) True assms(3) assms(4)] show ?thesis by blast
next
  case False
  with assms(2) have "500 \<le> status r" by simp
  from try_block_5xx_retry [OF assms(1) this assms(3) assms(4)] show ?thesis by blast
qed

lemma always_transient:
  assumes all: "\<forall>h q. \<exists>r. fetch e h q = Returns r \<and> (status r = 429 \<or> 500 \<le> status r)"
  shows "int a \<le> mr \<Longrightarrow>
    fetches (snd (request_loop e rq True mr a le tr)) = fetches tr + nat (mr + 1 - int a)
    \<and> (\<exists>r h. fetch e h rq = Returns r \<and>
          fst (request_loop e rq True mr a le tr) = Inl (surfaced (transient_error e r)))"
proof (induction "nat (mr - int a)" arbitrary: a le tr)
  case 0
  then have am: "int a = mr" by simp
  then have nlt: "\<not> (True \<and> int a < mr)" by simp
  from all obtain r where r: "fetch e tr rq = Returns r" "status r = 429 \<or> 500 \<le> status r" by blast
  note tb = try_block_transient_final [OF r nlt]
  have res: "request_loop e rq True mr a le tr = (Inl (surfaced (transient_error e r)), tr @ [Fetch rq])"
    by (rule loop_throw_final [OF "0.prems" tb nlt])
  have f: "fetches (snd (request_loop e rq True mr a le tr)) = fetches tr + nat (mr + 1 - int a)"
    unfolding res using am by simp
  have g: "\<exists>r h. fetch e h rq = Returns r \<and>
          fst (request_loop e rq True mr a le tr) = Inl (surfaced (transient_error e r))"
    unfolding res using r(1) by auto
  from f g show ?case ..
next
  case (Suc n)
  then have lt: "int a < mr" and n: "n = nat (mr - int (a + 1))" and le': "int (a + 1) \<le> mr" by simp_all
  from all obtain r where r: "fetch e tr rq = Returns r" "status r = 429 \<or> 500 \<le> status r" by blast
  from try_block_transient_retry [OF r TrueI lt]
  obtain ms where tb: "try_block e rq True mr a tr = (Continue, tr @ [Fetch rq, Sleep ms])" ..
  note eq = loop_continue [OF Suc.prems tb, of le]
  note ih = Suc.hyps(1) [OF n le', of le "tr @ [Fetch rq, Sleep ms]"]
  have f: "fetches (snd (request_loop e rq True mr a le tr)) = fetches tr + nat (mr + 1 - int a)"
    unfolding eq using ih lt by simp
  from ih have g: "\<exists>r h. fetch e h rq = Returns r \<and>
          fst (request_loop e rq True mr a le tr) = Inl (surfaced (transient_error e r))"
    unfolding eq by blast
  from f g show ?case ..
qed

lemma always_500_example:
  "request (server_always (plain_response 500 ''Internal Server Error'' [] ''boom'')) example_url ''lk_test''
     no_options []
   = (Inl (CladoError 500 ''API request failed with status 500: boom''),
      [Fetch (request_init (server_always (plain_response 500 ''Internal Server Error'' [] ''boom'')) example_url ''lk_test'' no_options),
       Sleep (Some 1000),
       Fetch (request_init (server_always (plain_response 500 ''Internal Server Error'' [] ''boom'')) example_url ''lk_test'' no_options),
       Sleep (Some 2000),
       Fetch (request_init (server_always (plain_response 500 ''Internal Server Error'' [] ''boom'')) example_url ''lk_test'' no_options),
       Sleep (Some 4000),
       Fetch (request_init (server_always (plain_response 500 ''Internal Server Error'' [] ''boom'')) example_url ''lk_test'' no_options)])"
  by (simp add: request_def no_options_def DEFAULT_maxRetries_def request_loop.simps try_block_def
      server_always_def plain_response_def ok_def Let_def sleep_def calculateBackoff_def
      DEFAULT_initialDelayMs_def DEFAULT_maxDelayMs_def parseErrorResponse_def example_JSON_parse_def toString_detail_def quoted_def
      text_or_statusText_def new_CladoError_def throw_new_def api_message_def digits10.simps)

lemma request_budget:
  "fetches (snd (request e u apiKey options tr))
     \<le> fetches tr + nat ((case maxRetries options of None \<Rightarrow> DEFAULT_maxRetries | Some n \<Rightarrow> n) + 1)
   \<and> length (sleeps (snd (request e u apiKey options tr)))
     \<le> length (sleeps tr) + nat (case maxRetries options of None \<Rightarrow> DEFAULT_maxRetries | Some n \<Rightarrow> n)"
  unfolding request_def using request_loop_budget [where a = 0] by simp

lemma request_default_transient:
  assumes "retry options \<noteq> Some False" "maxRetries options = None"
    and "\<forall>h q. \<exists>r. fetch e h q = Returns r \<and> (status r = 429 \<or> 500 \<le> status r)"
  shows "fetches (snd (request e u apiKey options tr)) = fetches tr + 4"
    and "\<exists>r h. fetch e h (request_init e u apiKey options) = Returns r \<and>
          fst (request e u apiKey options tr) = Inl (surfaced (transient_error e r))"
proof -
  from assms(1) have rt: "(case retry options of None \<Rightarrow> True | Some b \<Rightarrow> b) = True"
    by (cases "retry options") auto
  have le: "int 0 \<le> DEFAULT_maxRetries" by (simp add: DEFAULT_maxRetries_def)
  note t = always_transient [OF assms(3) le, of "request_init e u apiKey options" None tr]
  from t show "fetches (snd (request e u apiKey options tr)) = fetches tr + 4"
    unfolding request_def rt assms(2) by (simp add: DEFAULT_maxRetries_def)
  from t show "\<exists>r h. fetch e h (request_init e u apiKey options) = Returns r \<and>
          fst (request e u apiKey options tr) = Inl (surfaced (transient_error e r))"
    unfolding request_def rt assms(2) by simp
qed

lemma try_block_typed:
  assumes "fetch e tr rq = Returns r" "status r = 401 \<or> status r = 404 \<or> status r = 422"
  shows "try_block e rq rt mr a tr = (Throw (typed_error e r), tr @ [Fetch rq])"
  using assms try_block_401 [OF assms(1)] try_block_404 [OF assms(1)] try_block_422 [OF assms(1)]
  by (auto simp add: typed_error_def)

lemma typed_error_at_once:
  assumes "int a \<le> mr" "fetch e tr rq = Returns r"
    "status r = 401 \<or> status r = 404 \<or> status r = 422"
    "String_json (parseErrorResponse e r) = Some s"
  shows "request_loop e rq rt mr a le tr =
     (Inl (if status r = 401 then CladoAuthError (api_message 401 s)
           else if status r = 404 then CladoNotFoundError (api_message 404 s)
           else CladoValidationError (api_message 422 s)),
      tr @ [Fetch rq])"
proof -
  note tb = try_block_typed [OF assms(2,3), of rt mr a]
  have "instanceof_CladoError (typed_error e r)"
    by (simp add: typed_error_printable [OF assms(4)])
  from loop_throw_clado [OF assms(1) tb this, of le] show ?thesis
    by (simp add: typed_error_printable [OF assms(4)])
qed

lemma typed_error_retried:
  assumes "int a < mr" "fetch e tr rq = Returns r"
    "status r = 401 \<or> status r = 404 \<or> status r = 422"
    "String_json (parseErrorResponse e r) = None"
  shows "request_loop e rq True mr a le tr =
     request_loop e rq True mr (a + 1) (Some (JsError TypeError_message))
       (tr @ [Fetch rq, Sleep (Some (calculateBackoff a DEFAULT_initialDelayMs DEFAULT_maxDelayMs
                                       (Math_random e (tr @ [Fetch rq]))))])"
proof -
  from assms(1) have le: "int a \<le> mr" by simp
  have tb: "try_block e rq True mr a tr = (Throw (JsError TypeError_message), tr @ [Fetch rq])"
    using try_block_typed [OF assms(2,3), of True mr a]
    by (simp add: typed_error_unprintable [OF assms(4)])
  have nc: "\<not> instanceof_CladoError (JsError TypeError_message)" by simp
  from loop_throw_retry [OF le tb nc TrueI assms(1), of le] show ?thesis
    by (simp add: sleep_def)
qed

lemma all_500_printable:
  assumes "retry options \<noteq> Some False" "maxRetries options = None"
    and "\<forall>h q. \<exists>r. fetch e h q = Returns r \<and> status r = 500
            \<and> String_json (parseErrorResponse e r) \<noteq> None"
  shows "fetches (snd (request e u apiKey options tr)) = fetches tr + 4"
    and "\<exists>m. fst (request e u apiKey options tr) = Inl (CladoError 500 m)"
proof -
  from assms(3) have tr: "\<forall>h q. \<exists>r. fetch e h q = Returns r \<and> (status r = 429 \<or> 500 \<le> status r)"
    by (metis order_refl)
  from request_default_transient(1) [OF assms(1,2) tr]
  show "fetches (snd (request e u apiKey options tr)) = fetches tr + 4" .
  from request_default_transient(2) [OF assms(1,2) tr, where u = u and apiKey = apiKey and tr = tr]
  obtain r h' where r: "fetch e h' (request_init e u apiKey options) = Returns r"
    "fst (request e u apiKey options tr) = Inl (surfaced (transient_error e r))" by blast
  from assms(3) r(1) have "status r = 500 \<and> String_json (parseErrorResponse e r) \<noteq> None"
    by (metis outcome.inject)
  then obtain s where s: "status r = 500" "String_json (parseErrorResponse e r) = Some s" by auto
  from r(2) show "\<exists>m. fst (request e u apiKey options tr) = Inl (CladoError 500 m)"
    by (simp add: transient_error_printable [OF s(2)] s(1) surfaced_def)
qed

lemma parseInt_examples:
  "parseInt ''60'' = Some 60"
  "parseInt ''120'' = Some 120"
  "parseInt ''  -7 seconds'' = Some (-7)"
  "parseInt ''Wed, 21 Oct 2015 07:28:00 GMT'' = None"
  "parseInt ''soon'' = None"
  by (simp_all add: parseInt_def Let_def is_space_def is_digit_def digits_val_def digit_val_def)

lemma retryAfter_absent:
  "headers_get r ''Retry-After'' = None \<Longrightarrow> parseInt (retryAfter_header r) = Some 60"
  by (simp add: retryAfter_header_def parseInt_examples)

lemma try_block_parse_failure:
  assumes "fetch e tr rq = Returns r" "ok r" "body_text r = Returns t" "t \<noteq> []"
    "JSON_parse e t = Throws m"
  shows "try_block e rq rt mr a tr = (Throw (JsError m), tr @ [Fetch rq])"
  using assms by (simp add: try_block_def Let_def)

lemma parse_failure_retried:
  assumes "fetch e tr rq = Returns r" "ok r" "body_text r = Returns t" "t \<noteq> []"
    "JSON_parse e t = Throws m" "int a \<le> mr"
  shows "request_loop e rq rt mr a le tr =
     (if rt \<and> int a < mr
      then request_loop e rq rt mr (a + 1) (Some (JsError m))
             (tr @ [Fetch rq, Sleep (Some (calculateBackoff a DEFAULT_initialDelayMs DEFAULT_maxDelayMs
                                             (Math_random e (tr @ [Fetch rq]))))])
      else (Inl (throw_new (new_CladoError 0 (JStr (''Network error: '' @ m)))), tr @ [Fetch rq]))"
proof (cases "rt \<and> int a < mr")
  case True
  with loop_throw_retry [OF assms(6) try_block_parse_failure [OF assms(1-5)], of rt le]
  show ?thesis by (simp add: sleep_def)
next
  case False
  have nc: "\<not> instanceof_CladoError (JsError m)" by simp
  note eq = loop_throw_network [OF assms(6) try_block_parse_failure [OF assms(1-5)] nc False, of le]
  show ?thesis unfolding eq if_not_P [OF False] by simp
qed

lemma retry_after_examples:
  "request (server_always (rate_limited [(''Retry-After'', ''120'')]))
     example_url ''lk_test'' (no_options\<lparr>maxRetries := Some 1\<rparr>) []
   = (Inl (CladoRateLimitError (Some 120) ''API request failed with status 429: slow down''),
      [Fetch (request_init (server_always (rate_limited [(''Retry-After'', ''120'')])) example_url ''lk_test'' (no_options\<lparr>maxRetries := Some 1\<rparr>)),
       Sleep (Some 120000),
       Fetch (request_init (server_always (rate_limited [(''Retry-After'', ''120'')])) example_url ''lk_test'' (no_options\<lparr>maxRetries := Some 1\<rparr>))])"
  "request (server_always (rate_limited []))
     example_url ''lk_test'' (no_options\<lparr>maxRetries := Some 1\<rparr>) []
   = (Inl (CladoRateLimitError (Some 60) ''API request failed with status 429: slow down''),
      [Fetch (request_init (server_always (rate_limited [])) example_url ''lk_test'' (no_options\<lparr>maxRetries := Some 1\<rparr>)),
       Sleep (Some 60000),
       Fetch (request_init (server_always (rate_limited [])) example_url ''lk_test'' (no_options\<lparr>maxRetries := Some 1\<rparr>))])"
  by (simp_all add: request_def no_options_def DEFAULT_maxRetries_def request_loop.simps try_block_def
      server_always_def plain_response_def rate_limited_def ok_def Let_def sleep_def
      retryAfter_header_def parseInt_examples parseErrorResponse_def text_or_statusText_def
      example_JSON_parse_def toString_detail_def quoted_def new_CladoRateLimitError_def throw_new_def api_message_def
      digits10.simps)

subsection \<open>Backoff, objects and request headers\<close>

lemma backoff_jitter_range:
  assumes "0 \<le> r" "r < 1" "0 \<le> base"
  shows "min (0.9 * (base * 2 ^ attempt)) cap \<le> calculateBackoff attempt base cap r"
    and "calculateBackoff attempt base cap r \<le> min (1.1 * (base * 2 ^ attempt)) cap"
proof -
  define d where "d = base * 2 ^ attempt"
  define jit where "jit = d * 0.1 * (r * 2 - 1)"
  have d0: "0 \<le> d * 0.1" using assms(3) by (simp add: d_def)
  have j: "- 1 \<le> r * 2 - 1" "r * 2 - 1 \<le> 1" using assms by simp_all
  have "d * 0.1 * (- 1) \<le> jit"
    unfolding jit_def by (rule mult_left_mono [OF j(1) d0])
  then have lo: "- (0.1 * d) \<le> jit" by simp
  have "jit \<le> d * 0.1 * 1"
    unfolding jit_def by (rule mult_left_mono [OF j(2) d0])
  then have hi: "jit \<le> 0.1 * d" by simp
  have cb: "calculateBackoff attempt base cap r = min (d + jit) cap"
    by (simp add: calculateBackoff_def Let_def d_def jit_def)
  from lo show "min (0.9 * (base * 2 ^ attempt)) cap \<le> calculateBackoff attempt base cap r"
    unfolding cb d_def [symmetric] by linarith
  from hi show "calculateBackoff attempt base cap r \<le> min (1.1 * (base * 2 ^ attempt)) cap"
    unfolding cb d_def [symmetric] by linarith
qed

lemma map_of_assign: "map_of (assign k v es) = (map_of es)(k \<mapsto> v)"
  by (induction es) (auto simp add: fun_eq_iff)

lemma keys_assign_new: "k \<notin> set (keys es) \<Longrightarrow> assign k v es = es @ [(k, v)]"
  by (induction es) (auto simp add: keys_def)

lemma map_of_spread: "map_of (spread t ex) = map_of t ++ map_of (rev ex)"
  unfolding spread_def
proof (induction ex arbitrary: t)
  case Nil
  show ?case by simp
next
  case (Cons x ex)
  obtain k v where x: "x = (k, v)" by (cases x)
  show ?case
    by (simp add: Cons.IH x map_of_assign fun_eq_iff map_add_def split: option.split)
qed

lemma map_of_rev_distinct: "distinct (map fst xs) \<Longrightarrow> map_of (rev xs) = map_of xs"
  by (rule map_of_inject_set [THEN iffD2]) (simp_all add: distinct_rev rev_map [symmetric])

lemma map_of_requestHeaders:
  "map_of (requestHeaders apiKey hdrs b) =
     (\<lambda>k. if k = ''Content-Type'' \<and> body_truthy b then Some ''application/json''
          else case map_of (rev hdrs) k of
                 Some v \<Rightarrow> Some v
               | None \<Rightarrow>
                   if k = ''Authorization'' then Some (''Bearer '' @ apiKey)
                   else if k = ''Accept'' then Some ''application/json''
                   else None)"
  by (auto simp add: requestHeaders_def Let_def map_of_assign map_of_spread fun_eq_iff map_add_def
      split: option.split)

lemma request_loop_fetches_same:
  "\<exists>n. filter is_Fetch (snd (request_loop e rq rt mr a le tr))
         = filter is_Fetch tr @ replicate n (Fetch rq)"
proof (induction e rq rt mr a le tr rule: request_loop.induct)
  case (1 e rq rt mr a le tr)
  have zero: "filter is_Fetch tr = filter is_Fetch tr @ replicate 0 (Fetch rq)" by simp
  have one: "filter is_Fetch (tr @ [Fetch rq]) = filter is_Fetch tr @ replicate 1 (Fetch rq)" by simp
  show ?case
  proof (cases "int a \<le> mr")
    case False
    then show ?thesis using zero by (simp add: loop_exit)
  next
    case True
    show ?thesis
    proof (cases rule: try_block_cases [of e rq rt mr a tr])
      case (ret j)
      with True show ?thesis using one by (simp add: loop_return del: replicate.simps)
    next
      case (thr err)
      show ?thesis
      proof (cases "instanceof_CladoError err")
        case True
        with \<open>int a \<le> mr\<close> thr show ?thesis using one by (simp add: loop_throw_clado del: replicate.simps)
      next
        case nc: False
        show ?thesis
        proof (cases "rt \<and> int a < mr")
          case False
          with True thr nc show ?thesis using one by (simp add: loop_throw_network del: replicate.simps)
        next
          case c: True
          then have rt and lt: "int a < mr" by simp_all
          note eq = loop_throw_retry [OF True thr nc \<open>rt\<close> lt, of le]
          from "1.IH"(1) [OF True thr [symmetric] refl nc c]
          obtain n where "filter is_Fetch (snd (request_loop e rq rt mr (a + 1) (Some err)
              (sleep (Some (calculateBackoff a DEFAULT_initialDelayMs DEFAULT_maxDelayMs
                 (Math_random e (tr @ [Fetch rq])))) (tr @ [Fetch rq]))))
            = filter is_Fetch (sleep (Some (calculateBackoff a DEFAULT_initialDelayMs DEFAULT_maxDelayMs
                 (Math_random e (tr @ [Fetch rq])))) (tr @ [Fetch rq])) @ replicate n (Fetch rq)" ..
          then have "filter is_Fetch (snd (request_loop e rq rt mr a le tr))
              = filter is_Fetch tr @ replicate (Suc n) (Fetch rq)"
            unfolding eq by (simp add: sleep_def)
          then show ?thesis ..
        qed
      qed
    next
      case (cont ms)
      note eq = loop_continue [OF True cont(1), of le]
      from "1.IH"(2) [OF True cont(1) [symmetric] refl]
      obtain n where "filter is_Fetch (snd (request_loop e rq rt mr (a + 1) le (tr @ [Fetch rq, Sleep ms])))
          = filter is_Fetch (tr @ [Fetch rq, Sleep ms]) @ replicate n (Fetch rq)" ..
      then have "filter is_Fetch (snd (request_loop e rq rt mr a le tr))
              = filter is_Fetch tr @ replicate (Suc n) (Fetch rq)"
        unfolding eq by simp
      then show ?thesis ..
    qed
  qed
qed

subsection \<open>The parameter normalizer\<close>

lemma spread_distinct: "distinct (keys t @ keys ex) \<Longrightarrow> spread t ex = t @ ex"
  unfolding spread_def
proof (induction ex arbitrary: t)
  case Nil
  show ?case by simp
next
  case (Cons x ex)
  obtain k v where x: "x = (k, v)" by (cases x)
  from Cons.prems have new: "k \<notin> set (keys t)" and d: "distinct (keys (t @ [(k, v)]) @ keys ex)"
    by (auto simp add: keys_def x)
  from Cons.IH [OF d] show ?case by (simp add: x keys_assign_new [OF new])
qed

lemma toSnakeCase_spread:
  "toSnakeCase inherited obj = spread [] (map (\<lambda>(k, v). (snakeKey inherited k, v)) obj)"
  by (simp add: toSnakeCase_def spread_def fold_map comp_def case_prod_unfold)

lemma keys_renamed: "keys (map (\<lambda>(k, v). (f k, v)) obj) = map f (keys obj)"
  by (simp add: keys_def comp_def case_prod_unfold)

lemma snakeKey_table:
  "map (snakeKey inherited)
     [''searchId'', ''advancedFiltering'', ''linkedinUrl'', ''enrichEmail'', ''enrichPhone'',
      ''includePosts'', ''includeExperience'', ''includeEducation'', ''postUrl'', ''reactionType'']
   = [''search_id'', ''advanced_filtering'', ''linkedin_url'', ''enrich_email'', ''enrich_phone'',
      ''include_posts'', ''include_experience'', ''include_education'', ''post_url'', ''reaction_type'']"
  by (simp add: snakeKey_def snakeCaseMap_def)

lemma snakeKey_own:
  "inherited k = None \<Longrightarrow>
   snakeKey inherited k = (case map_of snakeCaseMap k of Some s \<Rightarrow> s | None \<Rightarrow> k)"
  by (simp add: snakeKey_def split: option.split)

lemma snakeKey_other:
  "k \<notin> set (keys snakeCaseMap) \<Longrightarrow> inherited k = None \<Longrightarrow> snakeKey inherited k = k"
  by (simp add: snakeKey_def keys_def map_of_eq_None_iff [THEN iffD2])

lemma snakeKey_inherited:
  "k \<notin> set (keys snakeCaseMap) \<Longrightarrow> inherited k = Some p \<Longrightarrow> snakeKey inherited k = p"
  by (simp add: snakeKey_def keys_def map_of_eq_None_iff [THEN iffD2])

lemma toSnakeCase_inherited_examples:
  "toSnakeCase (map_of Object_prototype) [(''constructor'', VStr ''x'')]
     = [(''function Object() { [native code] }'', VStr ''x'')]"
  "toSnakeCase (map_of Object_prototype) [(''query'', VStr ''q''), (''toString'', VNum 1)]
     = [(''query'', VStr ''q''), (''function toString() { [native code] }'', VNum 1)]"
  "toSnakeCase (\<lambda>k. None) [(''__proto__'', VStr ''x'')] = [(''__proto__'', VStr ''x'')]"
  by (simp_all add: toSnakeCase_def snakeKey_def snakeCaseMap_def Object_prototype_def
      native_code_def)

subsection \<open>The job poller\<close>

lemma rounds_Suc: "tr @ rounds jobId interval (Suc n) = (tr @ [GetDeepResearchStatus jobId, Slept interval]) @ rounds jobId interval n"
  by (simp add: rounds_def)




lemma wait_error:
  assumes "getDeepResearchStatus c tr jobId = Inl err"
  shows "waitForDeepResearch_loop c jobId interval tmo s tr = Some (Inl err, tr @ [GetDeepResearchStatus jobId])"
  using assms
  by (subst waitForDeepResearch_loop.simps) (simp add: Let_def)


lemma api_message_500: "api_message 500 m = ''API request failed with status 500: '' @ m"
  by (simp add: api_message_def digits10.simps)



lemma poller_examples:
  "waitForDeepResearch
     (polling_client [status_response ''pending'' None, status_response ''in_progress'' None,
                      status_response ''completed'' None])
     ''job-123'' \<lparr>pollInterval = None, timeout = None\<rparr> []
   = Some (Inr (status_response ''completed'' None),
           [GetDeepResearchStatus ''job-123'', Slept 2000, GetDeepResearchStatus ''job-123'', Slept 2000,
            GetDeepResearchStatus ''job-123''])"
  "waitForDeepResearch (polling_client [status_response ''failed'' (Some ''x'')])
     ''job-123'' \<lparr>pollInterval = None, timeout = None\<rparr> []
   = Some (Inl (CladoError 500 ''API request failed with status 500: x''),
           [GetDeepResearchStatus ''job-123''])"
  "waitForDeepResearch (polling_client [status_response ''failed'' None])
     ''job-123'' \<lparr>pollInterval = None, timeout = None\<rparr> []
   = Some (Inl (CladoError 500 ''API request failed with status 500: Deep research job failed''),
           [GetDeepResearchStatus ''job-123''])"
  by (simp_all add: waitForDeepResearch_def waitForDeepResearch_loop.simps polling_client_def
      status_response_def elapsed_def Let_def api_message_500)

subsection \<open>The pagination iterator\<close>

lemma page_options_lookup:
  "map_of (page_options options searchId offset limit) =
     (map_of options)(''searchId'' \<mapsto> searchId, ''offset'' \<mapsto> VNum offset, ''limit'' \<mapsto> VNum limit)"
  by (auto simp add: page_options_def map_of_spread fun_eq_iff map_add_def)

lemma searchPeopleAll_error:
  "searchPeople c tr (page_options options searchId offset limit) = Inl err \<Longrightarrow>
   searchPeopleAll_loop c options searchId offset limit yielded tr =
     Some (yielded, Some err, tr @ [SearchPeople (page_options options searchId offset limit)])"
  by (subst searchPeopleAll_loop.simps) (simp add: Let_def)

lemma searchPeopleAll_page:
  "searchPeople c tr (page_options options searchId offset limit) = Inr response \<Longrightarrow>
   searchPeopleAll_loop c options searchId offset limit yielded tr =
     (if int (length (results response)) < limit
         \<or> total response \<le> offset + int (length (results response))
      then Some (yielded @ results response, None,
                 tr @ [SearchPeople (page_options options searchId offset limit)])
      else searchPeopleAll_loop c options (VStr (search_id response))
             (offset + int (length (results response))) limit (yielded @ results response)
             (tr @ [SearchPeople (page_options options searchId offset limit)]))"
  by (subst searchPeopleAll_loop.simps) (simp add: Let_def)

lemma paged_client_page:
  "0 \<le> offset \<Longrightarrow> 0 \<le> limit \<Longrightarrow>
   searchPeople (paged_client items tok) tr (page_options options searchId offset limit)
   = Inr \<lparr>results = take (nat limit) (drop (nat offset) items), total = int (length items),
          query = (case map_of options ''query'' of Some (VStr q) \<Rightarrow> q | _ \<Rightarrow> []),
          search_id = tok\<rparr>"
  by (simp add: paged_client_def num_param_def page_options_lookup)

lemma run_31:
  assumes "length items = 31" "limit_of options = 30"
  shows "searchPeopleAll (paged_client items tok) options tr =
     Some (items, None,
           tr @ [SearchPeople (page_options options VUndefined 0 30),
                 SearchPeople (page_options options (VStr tok) 30 30)])"
proof -
  have p1: "searchPeople (paged_client items tok) tr (page_options options VUndefined 0 30)
      = Inr \<lparr>results = take 30 items, total = 31,
          query = (case map_of options ''query'' of Some (VStr q) \<Rightarrow> q | _ \<Rightarrow> []),
          search_id = tok\<rparr>"
    using paged_client_page [of 0 30 items tok tr options VUndefined] assms(1) by simp
  have p2: "searchPeople (paged_client items tok) (tr @ [SearchPeople (page_options options VUndefined 0 30)])
        (page_options options (VStr tok) 30 30)
      = Inr \<lparr>results = drop 30 items, total = 31,
          query = (case map_of options ''query'' of Some (VStr q) \<Rightarrow> q | _ \<Rightarrow> []),
          search_id = tok\<rparr>"
    using paged_client_page [of 30 30 items tok _ options "VStr tok"] assms(1) by simp
  show ?thesis
    unfolding searchPeopleAll_def assms(2)
    by (simp add: searchPeopleAll_page [OF p1] searchPeopleAll_page [OF p2] assms(1))
qed

lemma paged_run_complete:
  assumes "0 < limit"
  shows "offset \<le> length items \<Longrightarrow>
    \<exists>tr'. searchPeopleAll_loop (paged_client items tok) options searchId (int offset) limit yielded tr
            = Some (yielded @ drop offset items, None, tr')"
proof (induction "length items - offset" arbitrary: offset searchId yielded tr rule: less_induct)
  case less
  let ?page = "take (nat limit) (drop offset items)"
  have p: "searchPeople (paged_client items tok) tr (page_options options searchId (int offset) limit)
      = Inr \<lparr>results = ?page, total = int (length items),
          query = (case map_of options ''query'' of Some (VStr q) \<Rightarrow> q | _ \<Rightarrow> []),
          search_id = tok\<rparr>"
    using paged_client_page [of "int offset" limit items tok tr options searchId] assms by simp
  note step = searchPeopleAll_page [OF p, of yielded]
  show ?case
  proof (cases "int (length items - offset) \<le> limit")
    case True
    then have pg: "?page = drop offset items" by simp
    from True less.prems have stop: "int (length ?page) < limit \<or> int (length items) \<le> int offset + int (length ?page)"
      unfolding pg by simp
    show ?thesis unfolding step using stop pg by simp
  next
    case False
    then have len: "length ?page = nat limit" using assms by simp
    from False assms have go: "\<not> (int (length ?page) < limit \<or> int (length items) \<le> int offset + int (length ?page))"
      unfolding len by simp
    have off: "int offset + int (length ?page) = int (offset + nat limit)"
      unfolding len by simp
    have smaller: "length items - (offset + nat limit) < length items - offset"
      using False assms by simp
    have inside: "offset + nat limit \<le> length items" using False assms by simp
    from less.hyps [OF smaller inside, of "VStr tok" "yielded @ ?page"
        "tr @ [SearchPeople (page_options options searchId (int offset) limit)]"]
    obtain tr' where "searchPeopleAll_loop (paged_client items tok) options (VStr tok)
        (int (offset + nat limit)) limit (yielded @ ?page)
        (tr @ [SearchPeople (page_options options searchId (int offset) limit)])
      = Some ((yielded @ ?page) @ drop (offset + nat limit) items, None, tr')" ..
    moreover have "?page @ drop (offset + nat limit) items = drop offset items"
      by (metis add.commute append_take_drop_id drop_drop)
    ultimately show ?thesis
      unfolding step using go off by simp
  qed
qed

subsection \<open>The URL of a page request\<close>

lemma keys_assign: "set (keys (assign k v es)) = insert k (set (keys es))"
proof (induction es)
  case Nil
  show ?case by (simp add: keys_def)
next
  case (Cons x es)
  obtain k' v' where x: "x = (k', v')" by (cases x)
  from Cons.IH have ih: "set (map fst (assign k v es)) = insert k (set (map fst es))"
    by (simp add: keys_def)
  show ?case
  proof (cases "k' = k")
    case True
    then show ?thesis by (simp add: x keys_def)
  next
    case False
    then show ?thesis using ih by (simp add: x keys_def insert_commute)
  qed
qed

lemma distinct_assign: "distinct (keys es) \<Longrightarrow> distinct (keys (assign k v es))"
proof (induction es)
  case Nil
  show ?case by (simp add: keys_def)
next
  case (Cons x es)
  obtain k' v' where x: "x = (k', v')" by (cases x)
  from Cons.prems have d: "distinct (keys es)" and n: "k' \<notin> set (keys es)"
    by (simp_all add: keys_def x)
  show ?case
  proof (cases "k' = k")
    case True
    with Cons.prems show ?thesis by (simp add: x keys_def)
  next
    case False
    from Cons.IH [OF d] n False keys_assign [of k v es] show ?thesis
      by (simp add: x keys_def)
  qed
qed

lemma keys_spread: "set (keys (spread t ex)) = set (keys t) \<union> set (keys ex)"
  unfolding spread_def
proof (induction ex arbitrary: t)
  case Nil
  show ?case by (simp add: keys_def)
next
  case (Cons x ex)
  obtain k v where x: "x = (k, v)" by (cases x)
  show ?case by (simp add: x Cons.IH keys_assign) (simp add: keys_def)
qed

lemma distinct_spread: "distinct (keys t) \<Longrightarrow> distinct (keys (spread t ex))"
  unfolding spread_def
proof (induction ex arbitrary: t)
  case Nil
  then show ?case by simp
next
  case (Cons x ex)
  obtain k v where x: "x = (k, v)" by (cases x)
  from Cons.IH [OF distinct_assign [OF Cons.prems, of k v]] show ?case by (simp add: x)
qed

lemma distinct_toSnakeCase: "distinct (keys (toSnakeCase inherited obj))"
  unfolding toSnakeCase_spread by (rule distinct_spread) (simp add: keys_def)

lemma searchParams_set_new:
  "k \<notin> fst ` set ps \<Longrightarrow> searchParams_set k v ps = ps @ [(k, v)]"
  by (induction ps) auto

lemma add_param_new:
  "k \<notin> fst ` set ps \<Longrightarrow> add_param (k, v) ps = ps @ add_param (k, v) []"
  by (cases v) (simp_all add: searchParams_set_new)

lemma add_param_keys: "fst ` set (add_param (k, v) []) \<subseteq> {k}"
  by (cases v) auto

lemma fold_add_param:
  "distinct (keys ps) \<Longrightarrow> set (keys ps) \<inter> fst ` set acc = {} \<Longrightarrow>
   fold add_param ps acc = acc @ concat (map (\<lambda>p. add_param p []) ps)"
proof (induction ps arbitrary: acc)
  case Nil
  show ?case by simp
next
  case (Cons x ps)
  obtain k v where x: "x = (k, v)" by (cases x)
  from Cons.prems have new: "k \<notin> fst ` set acc" and d: "distinct (keys ps)"
    and n: "k \<notin> set (keys ps)" and dis: "set (keys ps) \<inter> fst ` set acc = {}"
    by (auto simp add: x keys_def)
  from add_param_keys [of k v] n dis
  have dis': "set (keys ps) \<inter> fst ` set (acc @ add_param (k, v) []) = {}" by auto
  from Cons.IH [OF d dis'] show ?case
    by (simp add: x add_param_new [OF new])
qed

lemma params_for_key:
  assumes "distinct (keys ps)"
  shows "filter (\<lambda>p. fst p = k) (fold add_param ps [])
         = (case map_of ps k of None \<Rightarrow> [] | Some v \<Rightarrow> add_param (k, v) [])"
proof -
  have own: "\<And>k' v. filter (\<lambda>p. fst p = k) (add_param (k', v) [])
      = (if k' = k then add_param (k', v) [] else [])"
  proof -
    fix k' v
    from add_param_keys [of k' v] have "\<forall>p \<in> set (add_param (k', v) []). fst p = k'" by auto
    then show "filter (\<lambda>p. fst p = k) (add_param (k', v) [])
      = (if k' = k then add_param (k', v) [] else [])"
      by (auto simp add: filter_empty_conv intro: filter_True)
  qed
  have "filter (\<lambda>p. fst p = k) (concat (map (\<lambda>p. add_param p []) ps))
         = (case map_of ps k of None \<Rightarrow> [] | Some v \<Rightarrow> add_param (k, v) [])"
    using assms
  proof (induction ps)
    case Nil
    show ?case by simp
  next
    case (Cons x ps)
    obtain k' v where x: "x = (k', v)" by (cases x)
    from Cons.prems have d: "distinct (keys ps)" and n: "k' \<notin> set (keys ps)"
      by (simp_all add: x keys_def)
    show ?case
    proof (cases "k' = k")
      case True
      with n have "map_of ps k = None" by (simp add: keys_def map_of_eq_None_iff)
      with Cons.IH [OF d] True show ?thesis by (simp add: x own)
    next
      case False
      with Cons.IH [OF d] show ?thesis by (simp add: x own)
    qed
  qed
  with fold_add_param [OF assms, of "[]"] show ?thesis by simp
qed

lemma renamed_last_wins:
  assumes "(k0, v0) \<in> set obj" "f k0 = k'" "\<forall>(k, v) \<in> set obj. f k = k' \<longrightarrow> v = v0"
  shows "map_of (rev (map (\<lambda>(k, v). (f k, v)) obj)) k' = Some v0"
  using assms
proof (induction obj)
  case Nil
  then show ?case by simp
next
  case (Cons x obj)
  obtain k v where x: "x = (k, v)" by (cases x)
  show ?case
  proof (cases "\<exists>v1. map_of (rev (map (\<lambda>(k, v). (f k, v)) obj)) k' = Some v1")
    case True
    then obtain v1 where v1: "map_of (rev (map (\<lambda>(k, v). (f k, v)) obj)) k' = Some v1" ..
    then have "(k', v1) \<in> set (rev (map (\<lambda>(k, v). (f k, v)) obj))" by (rule map_of_SomeD)
    then obtain k1 where "(k1, v1) \<in> set obj" "f k1 = k'" by auto
    with Cons.prems(3) have "v1 = v0" by auto
    with v1 show ?thesis by (simp add: x map_add_def)
  next
    case False
    then have none: "map_of (rev (map (\<lambda>(k, v). (f k, v)) obj)) k' = None" by simp
    then have "k' \<notin> fst ` set (rev (map (\<lambda>(k, v). (f k, v)) obj))"
      by (simp add: map_of_eq_None_iff)
    with Cons.prems(2) have "(k0, v0) \<notin> set obj" by force
    with Cons.prems(1) have "k = k0" "v = v0" by (simp_all add: x)
    with none Cons.prems(2) show ?thesis by (simp add: x map_add_def)
  qed
qed

lemma renamed_none:
  assumes "\<forall>k \<in> set (keys obj). f k \<noteq> k'"
  shows "map_of (rev (map (\<lambda>(k, v). (f k, v)) obj)) k' = None"
  using assms by (force simp add: map_of_eq_None_iff keys_def)

lemma snakeKey_search_id:
  "snakeKey (map_of Object_prototype) k = ''search_id'' \<Longrightarrow> k = ''searchId'' \<or> k = ''search_id''"
  by (simp add: snakeKey_def snakeCaseMap_def Object_prototype_def native_code_def split: if_splits)

lemma snakeKey_offset: "snakeKey (map_of Object_prototype) k = ''offset'' \<Longrightarrow> k = ''offset''"
  by (simp add: snakeKey_def snakeCaseMap_def Object_prototype_def native_code_def split: if_splits)

lemma snakeKey_not_searchId: "snakeKey (map_of Object_prototype) k \<noteq> ''searchId''"
  by (simp add: snakeKey_def snakeCaseMap_def Object_prototype_def native_code_def)

lemma searchPeopleAll_trace:
  assumes "searchPeopleAll_loop c options searchId offset limit yielded tr = Some y"
  shows "\<exists>rest. snd (snd y) = tr @ SearchPeople (page_options options searchId offset limit) # rest"
proof (rule searchPeopleAll_loop.raw_induct
    [where P = "\<lambda>c options searchId offset limit yielded tr y.
        \<exists>rest. snd (snd y) = tr @ SearchPeople (page_options options searchId offset limit) # rest",
     OF _ assms])
  fix loop :: "'a client \<Rightarrow> jsvalue object \<Rightarrow> jsvalue \<Rightarrow> int \<Rightarrow> int \<Rightarrow> 'a list \<Rightarrow> client_event list
      \<Rightarrow> ('a list \<times> error option \<times> client_event list) option"
    and c :: "'a client" and options searchId offset limit and yielded :: "'a list" and tr y
  assume ih: "\<And>c options searchId offset limit yielded tr y.
      loop c options searchId offset limit yielded tr = Some y \<Longrightarrow>
      \<exists>rest. snd (snd y) = tr @ SearchPeople (page_options options searchId offset limit) # rest"
  assume body: "(let rq = page_options options searchId offset limit; tr1 = tr @ [SearchPeople rq]
      in case searchPeople c tr rq of
           Inl err \<Rightarrow> Some (yielded, Some err, tr1)
         | Inr response \<Rightarrow>
             (let yielded1 = yielded @ results response;
                  n = int (length (results response))
              in if n < limit \<or> offset + n \<ge> total response then Some (yielded1, None, tr1)
                 else loop c options (VStr (search_id response)) (offset + n) limit yielded1 tr1))
      = Some y"
  show "\<exists>rest. snd (snd y) = tr @ SearchPeople (page_options options searchId offset limit) # rest"
  proof (cases "searchPeople c tr (page_options options searchId offset limit)")
    case (Inl e)
    with body show ?thesis by (auto simp add: Let_def)
  next
    case (Inr response)
    show ?thesis
    proof (cases "int (length (results response)) < limit
         \<or> total response \<le> offset + int (length (results response))")
      case True
      with Inr body show ?thesis by (auto simp add: Let_def)
    next
      case False
      with Inr body have "loop c options (VStr (search_id response))
          (offset + int (length (results response))) limit (yielded @ results response)
          (tr @ [SearchPeople (page_options options searchId offset limit)]) = Some y"
        by (simp add: Let_def)
      from ih [OF this] show ?thesis by auto
    qed
  qed
qed

lemma toSnakeCase_lookup:
  "map_of (toSnakeCase inherited obj) = map_of (rev (map (\<lambda>(k, v). (snakeKey inherited k, v)) obj))"
  by (simp add: toSnakeCase_spread map_of_spread)

lemma page_params:
  assumes "distinct (keys options)" "''search_id'' \<notin> set (keys options)"
  shows "filter (\<lambda>p. fst p = ''search_id'')
           (searchParams (searchPeople_url baseUrl (page_options options searchId offset limit)))
         = add_param (''search_id'', searchId) []"
    and "filter (\<lambda>p. fst p = ''searchId'')
           (searchParams (searchPeople_url baseUrl (page_options options searchId offset limit))) = []"
    and "filter (\<lambda>p. fst p = ''offset'')
           (searchParams (searchPeople_url baseUrl (page_options options searchId offset limit)))
         = [(''offset'', show_int offset)]"
proof -
  let ?rq = "page_options options searchId offset limit"
  have d: "distinct (keys ?rq)"
    unfolding page_options_def by (rule distinct_spread [OF assms(1)])
  have ks: "set (keys ?rq) = set (keys options) \<union> {''searchId'', ''offset'', ''limit''}"
    unfolding page_options_def keys_spread by (simp add: keys_def)
  have val: "\<And>k v. (k, v) \<in> set ?rq \<Longrightarrow> map_of ?rq k = Some v"
    using d unfolding keys_def by (rule map_of_is_SomeI)
  have mem: "\<And>k v. map_of ?rq k = Some v \<Longrightarrow> (k, v) \<in> set ?rq"
    by (rule map_of_SomeD)
  have sid: "map_of (toSnakeCase (map_of Object_prototype) ?rq) ''search_id'' = Some searchId"
    unfolding toSnakeCase_lookup
  proof (rule renamed_last_wins [where ?k0.0 = "''searchId''"])
    show "(''searchId'', searchId) \<in> set ?rq"
      by (rule mem) (simp add: page_options_lookup)
    show "snakeKey (map_of Object_prototype) ''searchId'' = ''search_id''"
      by (simp add: snakeKey_def snakeCaseMap_def)
    show "\<forall>(k, v) \<in> set ?rq. snakeKey (map_of Object_prototype) k = ''search_id'' \<longrightarrow> v = searchId"
    proof (clarify)
      fix k v assume kv: "(k, v) \<in> set ?rq" and sk: "snakeKey (map_of Object_prototype) k = ''search_id''"
      from sk have "k = ''searchId'' \<or> k = ''search_id''" by (rule snakeKey_search_id)
      moreover from kv have "k \<in> set (keys ?rq)" by (force simp add: keys_def)
      ultimately have "k = ''searchId''" using assms(2) ks by auto
      with val [OF kv] show "v = searchId" by (simp add: page_options_lookup)
    qed
  qed
  have off: "map_of (toSnakeCase (map_of Object_prototype) ?rq) ''offset'' = Some (VNum offset)"
    unfolding toSnakeCase_lookup
  proof (rule renamed_last_wins [where ?k0.0 = "''offset''"])
    show "(''offset'', VNum offset) \<in> set ?rq"
      by (rule mem) (simp add: page_options_lookup)
    show "snakeKey (map_of Object_prototype) ''offset'' = ''offset''"
      by (simp add: snakeKey_def snakeCaseMap_def Object_prototype_def)
    show "\<forall>(k, v) \<in> set ?rq. snakeKey (map_of Object_prototype) k = ''offset'' \<longrightarrow> v = VNum offset"
    proof (clarify)
      fix k v assume kv: "(k, v) \<in> set ?rq" and sk: "snakeKey (map_of Object_prototype) k = ''offset''"
      from sk have "k = ''offset''" by (rule snakeKey_offset)
      with val [OF kv] show "v = VNum offset" by (simp add: page_options_lookup)
    qed
  qed
  have camel: "map_of (toSnakeCase (map_of Object_prototype) ?rq) ''searchId'' = None"
    unfolding toSnakeCase_lookup by (rule renamed_none) (simp add: snakeKey_not_searchId)
  note pk = params_for_key [OF distinct_toSnakeCase, of _ "map_of Object_prototype" ?rq]
  show "filter (\<lambda>p. fst p = ''search_id'') (searchParams (searchPeople_url baseUrl ?rq))
         = add_param (''search_id'', searchId) []"
    by (simp add: searchPeople_url_def buildUrl_def pk sid)
  show "filter (\<lambda>p. fst p = ''searchId'') (searchParams (searchPeople_url baseUrl ?rq)) = []"
    by (simp add: searchPeople_url_def buildUrl_def pk camel)
  show "filter (\<lambda>p. fst p = ''offset'') (searchParams (searchPeople_url baseUrl ?rq))
         = [(''offset'', show_int offset)]"
    by (simp add: searchPeople_url_def buildUrl_def pk off)
qed

lemma show_int_0: "show_int 0 = ''0''"
  by (simp add: show_int_def digits10.simps)

lemma first_page_url_example:
  "searchParams (searchPeople_url DEFAULT_BASE_URL (page_options stale_options VUndefined 0 30))
   = [(''query'', ''engineers''), (''offset'', ''0''), (''limit'', ''30'')]"
  "searchParams (searchPeople_url DEFAULT_BASE_URL (page_options stale_options (VStr ''abc-123'') 30 30))
   = [(''query'', ''engineers''), (''search_id'', ''abc-123''), (''offset'', ''30''), (''limit'', ''30'')]"
  by (simp_all add: searchPeople_url_def buildUrl_def toSnakeCase_def snakeKey_def snakeCaseMap_def
      Object_prototype_def page_options_def spread_def stale_options_def show_int_def digits10.simps)

lemma request_fetches_same:
  "\<exists>n. filter is_Fetch (snd (request e u apiKey options tr))
         = filter is_Fetch tr @ replicate n (Fetch (request_init e u apiKey options))"
  unfolding request_def by (rule request_loop_fetches_same)

lemma client_searchPeople_fetches:
  "\<exists>n. filter is_Fetch (snd (client_searchPeople e baseUrl apiKey options tr))
         = filter is_Fetch tr
           @ replicate n
               (Fetch \<lparr>req_url = searchPeople_url baseUrl options, req_method = ''GET'',
                       req_headers = [(''Authorization'', ''Bearer '' @ apiKey),
                                      (''Accept'', ''application/json'')],
                       req_body = None\<rparr>)"
proof -
  have "request_init e (searchPeople_url baseUrl options) apiKey no_options
      = \<lparr>req_url = searchPeople_url baseUrl options, req_method = ''GET'',
         req_headers = [(''Authorization'', ''Bearer '' @ apiKey), (''Accept'', ''application/json'')],
         req_body = None\<rparr>"
    by (simp add: request_init_def no_options_def requestHeaders_def spread_def)
  with request_fetches_same [of e "searchPeople_url baseUrl options" apiKey no_options tr]
  show ?thesis by (simp add: client_searchPeople_def)
qed

section \<open>The claims of the specification\<close>

text \<open>
  C1. The claim is that a call whose every exchange answers 500, with retrying enabled
  and the default budget, makes exactly 4 network attempts and then raises a
  \<open>CladoError\<close> of status 500. The attempts are 4 on every such server, and the error
  has status 500 whenever the message read from the last response converts to a string
  (lemmas \<open>request_default_transient\<close>, \<open>all_500_printable\<close>; the budget of attempts
  and sleeps of any call is lemma \<open>request_budget\<close>). The engine misses the case of a
  message that does not: run on a server that always answers 500 with the body
  \<open>{"detail":{"toString":"x"}}\<close>, the message is the object \<open>{"toString":"x"}\<close>, the
  constructor of the \<open>CladoError\<close> of status 500 throws a \<open>TypeError\<close> inside the
  \<open>try\<close> block at the fourth attempt, the \<open>catch\<close> written for network errors takes it,
  and the call ends in a \<open>CladoError\<close> of status 0 whose message starts with
  \<open>Network error:\<close>.
\<close>

theorem C1_unprintable_detail_ends_in_status_0:
  "parseErrorResponse (server_always (plain_response 500 ''Internal Server Error'' [] toString_detail)) (plain_response 500 ''Internal Server Error'' [] toString_detail)
     = JObj [(''toString'', JStr ''x'')]
   \<and> new_CladoError 500 (JObj [(''toString'', JStr ''x'')]) = Throws TypeError_message
   \<and> request (server_always (plain_response 500 ''Internal Server Error'' [] toString_detail)) example_url ''lk_test'' no_options []
     = (Inl (CladoError 0 ''API request failed with status 0: Network error: Cannot convert object to primitive value''),
        [Fetch (request_init (server_always (plain_response 500 ''Internal Server Error'' [] toString_detail)) example_url ''lk_test'' no_options),
         Sleep (Some 1000),
         Fetch (request_init (server_always (plain_response 500 ''Internal Server Error'' [] toString_detail)) example_url ''lk_test'' no_options),
         Sleep (Some 2000),
         Fetch (request_init (server_always (plain_response 500 ''Internal Server Error'' [] toString_detail)) example_url ''lk_test'' no_options),
         Sleep (Some 4000),
         Fetch (request_init (server_always (plain_response 500 ''Internal Server Error'' [] toString_detail)) example_url ''lk_test'' no_options)])"
  by (simp add: request_def no_options_def DEFAULT_maxRetries_def request_loop.simps try_block_def
      server_always_def plain_response_def ok_def Let_def sleep_def calculateBackoff_def
      DEFAULT_initialDelayMs_def DEFAULT_maxDelayMs_def parseErrorResponse_def
      example_JSON_parse_def toString_detail_def quoted_def text_or_statusText_def
      new_CladoError_def throw_new_def TypeError_message_def api_message_def digits10.simps)

text \<open>
  C2. The claim is that a 2xx response whose non-empty body is not valid JSON raises a
  \<open>CladoError\<close> with the status of that response, without a retry. The engine does
  otherwise: \<open>JSON.parse\<close> throws inside the \<open>try\<close> block, the \<open>catch\<close> written for
  network errors takes the \<open>SyntaxError\<close>, retries the call with backoff while the
  budget lasts, and in the end raises a \<open>CladoError\<close> of status 0 whose message starts
  with \<open>Network error:\<close>. Run on a server that always answers \<open>200 OK\<close> with an HTML
  page: with the default options the call makes 4 attempts; with retrying switched off
  it makes 1; both end in status 0, not 200.
\<close>

theorem C2_parse_failure_retried_as_network_error:
  "request (server_always html_200) example_url ''lk_test'' no_options []
   = (Inl (CladoError 0 ''API request failed with status 0: Network error: Unexpected token in JSON''),
      [Fetch (request_init (server_always html_200) example_url ''lk_test'' no_options),
       Sleep (Some 1000),
       Fetch (request_init (server_always html_200) example_url ''lk_test'' no_options),
       Sleep (Some 2000),
       Fetch (request_init (server_always html_200) example_url ''lk_test'' no_options),
       Sleep (Some 4000),
       Fetch (request_init (server_always html_200) example_url ''lk_test'' no_options)])
   \<and> request (server_always html_200) example_url ''lk_test'' (no_options\<lparr>retry := Some False\<rparr>) []
   = (Inl (CladoError 0 ''API request failed with status 0: Network error: Unexpected token in JSON''),
      [Fetch (request_init (server_always html_200) example_url ''lk_test'' (no_options\<lparr>retry := Some False\<rparr>))])"
  by (simp add: request_def no_options_def DEFAULT_maxRetries_def request_loop.simps try_block_def
      server_always_def plain_response_def html_200_def ok_def Let_def sleep_def calculateBackoff_def
      DEFAULT_initialDelayMs_def DEFAULT_maxDelayMs_def example_JSON_parse_def toString_detail_def quoted_def
      new_CladoError_def throw_new_def api_message_def digits10.simps)



text \<open>
  C4. Against a server that holds 31 items, reports \<open>total = 31\<close> and serves pages of up
  to \<open>limit\<close> items, \<open>searchPeopleAll\<close> with a limit of 30 yields the 31 items in the
  server's order with exactly two page requests (the first at offset 0 with no token,
  the second at offset 30 with the server's token) and no third. In general, after a
  page: the run ends when the page has fewer items than the limit or the offset plus the
  items of the page reaches the reported total; otherwise the loop goes on with the
  token the server returned and the offset advanced by the number of items of the page,
  and these are what the next request carries.
\<close>

theorem C4_pagination:
  "(length items = 31 \<and> limit_of options = 30 \<longrightarrow>
      searchPeopleAll (paged_client items tok) options tr =
        Some (items, None,
              tr @ [SearchPeople (page_options options VUndefined 0 30),
                    SearchPeople (page_options options (VStr tok) 30 30)]))
   \<and> (searchPeople c tr (page_options options searchId offset limit) = Inr response \<longrightarrow>
      searchPeopleAll_loop c options searchId offset limit yielded tr =
        (if int (length (results response)) < limit
            \<or> total response \<le> offset + int (length (results response))
         then Some (yielded @ results response, None,
                    tr @ [SearchPeople (page_options options searchId offset limit)])
         else searchPeopleAll_loop c options (VStr (search_id response))
                (offset + int (length (results response))) limit (yielded @ results response)
                (tr @ [SearchPeople (page_options options searchId offset limit)])))
   \<and> map_of (page_options options searchId offset limit) ''searchId'' = Some searchId
   \<and> map_of (page_options options searchId offset limit) ''offset'' = Some (VNum offset)
   \<and> map_of (page_options options searchId offset limit) ''limit'' = Some (VNum limit)"
proof (intro conjI impI)
  assume "length items = 31 \<and> limit_of options = 30"
  then show "searchPeopleAll (paged_client items tok) options tr =
        Some (items, None,
              tr @ [SearchPeople (page_options options VUndefined 0 30),
                    SearchPeople (page_options options (VStr tok) 30 30)])"
    by (intro run_31) simp_all
next
  assume "searchPeople c tr (page_options options searchId offset limit) = Inr response"
  then show "searchPeopleAll_loop c options searchId offset limit yielded tr =
        (if int (length (results response)) < limit
            \<or> total response \<le> offset + int (length (results response))
         then Some (yielded @ results response, None,
                    tr @ [SearchPeople (page_options options searchId offset limit)])
         else searchPeopleAll_loop c options (VStr (search_id response))
                (offset + int (length (results response))) limit (yielded @ results response)
                (tr @ [SearchPeople (page_options options searchId offset limit)]))"
    by (rule searchPeopleAll_page)
qed (simp_all add: page_options_lookup)

theorem C4_pagination_witness:
  "(length [1..<32] = 31 \<and> limit_of example_options = 30)
   \<and> searchPeopleAll (paged_client [1..<32] ''abc-123'') example_options []
       = Some ([1..<32], None,
               [SearchPeople [(''query'', VStr ''engineers''), (''limit'', VNum 30),
                              (''searchId'', VUndefined), (''offset'', VNum 0)],
                SearchPeople [(''query'', VStr ''engineers''), (''limit'', VNum 30),
                              (''searchId'', VStr ''abc-123''), (''offset'', VNum 30)]])
   \<and> searchPeople (paged_client [1..<32] ''abc-123'') [] (page_options example_options VUndefined 0 30)
       = Inr \<lparr>results = [1..<31], total = 31, query = ''engineers'', search_id = ''abc-123''\<rparr>
   \<and> searchPeopleAll_loop (paged_client [1..<32] ''abc-123'') example_options VUndefined 0 30 [] []
       = searchPeopleAll_loop (paged_client [1..<32] ''abc-123'') example_options (VStr ''abc-123'')
           30 30 [1..<31]
           [SearchPeople [(''query'', VStr ''engineers''), (''limit'', VNum 30),
                          (''searchId'', VUndefined), (''offset'', VNum 0)]]"
proof -
  have h: "length [1..<32] = 31 \<and> limit_of example_options = 30"
    by (simp add: limit_of_def example_options_def)
  have po: "page_options example_options VUndefined 0 30
      = [(''query'', VStr ''engineers''), (''limit'', VNum 30), (''searchId'', VUndefined), (''offset'', VNum 0)]"
    "page_options example_options (VStr ''abc-123'') 30 30
      = [(''query'', VStr ''engineers''), (''limit'', VNum 30), (''searchId'', VStr ''abc-123''),
         (''offset'', VNum 30)]"
    by (simp_all add: page_options_def spread_def example_options_def)
  have tk: "take 30 [1..<32] = [1..<31]"
    by (simp add: take_upt)
  have p: "searchPeople (paged_client [1..<32] ''abc-123'') [] (page_options example_options VUndefined 0 30)
       = Inr \<lparr>results = [1..<31], total = 31, query = ''engineers'', search_id = ''abc-123''\<rparr>"
    unfolding po by (simp add: paged_client_def num_param_def tk)
  note t = C4_pagination [where items = "[1..<32]" and options = example_options and tok = "''abc-123''"
      and tr = "[]" and c = "paged_client [1..<32] ''abc-123''" and searchId = VUndefined and offset = 0
      and limit = 30 and yielded = "[]"
      and response = "\<lparr>results = [1..<31], total = 31, query = ''engineers'', search_id = ''abc-123''\<rparr>"]
  from t h have run: "searchPeopleAll (paged_client [1..<32] ''abc-123'') example_options []
       = Some ([1..<32], None,
               [] @ [SearchPeople (page_options example_options VUndefined 0 30),
                SearchPeople (page_options example_options (VStr ''abc-123'') 30 30)])"
    by blast
  from t p have step: "searchPeopleAll_loop (paged_client [1..<32] ''abc-123'') example_options VUndefined 0 30 [] []
       = (if int (length (results \<lparr>results = [1..<31], total = 31, query = ''engineers'', search_id = ''abc-123''\<rparr>)) < 30
            \<or> total \<lparr>results = [1..<31], total = 31, query = ''engineers'', search_id = ''abc-123''\<rparr>
               \<le> 0 + int (length (results \<lparr>results = [1..<31], total = 31, query = ''engineers'', search_id = ''abc-123''\<rparr>))
         then Some ([] @ results \<lparr>results = [1..<31], total = 31, query = ''engineers'', search_id = ''abc-123''\<rparr>, None,
                    [] @ [SearchPeople (page_options example_options VUndefined 0 30)])
         else searchPeopleAll_loop (paged_client [1..<32] ''abc-123'') example_options
                (VStr (search_id \<lparr>results = [1..<31], total = 31, query = ''engineers'', search_id = ''abc-123''\<rparr>))
                (0 + int (length (results \<lparr>results = [1..<31], total = 31, query = ''engineers'', search_id = ''abc-123''\<rparr>))) 30
                ([] @ results \<lparr>results = [1..<31], total = 31, query = ''engineers'', search_id = ''abc-123''\<rparr>)
                ([] @ [SearchPeople (page_options example_options VUndefined 0 30)]))"
    by blast
  from h run p step show ?thesis
    by (simp add: po)
qed

text \<open>
  C5. The claim is that, where the un-jittered exponential exceeds the ceiling, some
  jitter draw makes \<open>calculateBackoff\<close> return more than the ceiling. It never does:
  the function adds the jitter first and clamps the sum, \<open>Math.min(delay + jitter,
  maxDelayMs)\<close>. Amended: for every attempt, base delay, ceiling and jitter draw the
  result is the minimum of the jittered exponential and the ceiling, and so is at most
  the ceiling.
\<close>

theorem C5_backoff_clamped_after_jitter:
  "calculateBackoff attempt base cap r
     = min (base * 2 ^ attempt + base * 2 ^ attempt * 0.1 * (r * 2 - 1)) cap
   \<and> calculateBackoff attempt base cap r \<le> cap"
  by (simp add: calculateBackoff_def Let_def)

text \<open>
  The claim C5 as stated has no instance: no attempt, base, ceiling and draw in
  \<open>[0, 1)\<close> give a result above the ceiling.
\<close>

theorem C5_backoff_never_exceeds_ceiling:
  "\<not> (\<exists>attempt base cap r. 0 \<le> r \<and> r < 1 \<and> cap < base * 2 ^ attempt
          \<and> cap < calculateBackoff attempt base cap r)"
  by (simp add: calculateBackoff_def Let_def)

text \<open>
  C6. The claim is that the retry-after duration is 60 whenever the \<open>Retry-After\<close>
  header is absent or cannot be parsed as an integer. For an absent or empty header it
  is; for a header that is not a number (here the HTTP-date form of the header) the
  engine computes \<open>parseInt\<close> of the header itself, which is \<open>NaN\<close>: each sleep before
  a retry is \<open>sleep(NaN)\<close> and the \<open>CladoRateLimitError\<close> raised at the end carries
  \<open>retryAfter = NaN\<close>, not 60.
\<close>

theorem C6_unparseable_retry_after_is_NaN:
  "request (server_always (rate_limited [(''Retry-After'', ''Wed, 21 Oct 2015 07:28:00 GMT'')]))
     example_url ''lk_test'' no_options []
   = (Inl (CladoRateLimitError None ''API request failed with status 429: slow down''),
      [Fetch (request_init (server_always (rate_limited [(''Retry-After'', ''Wed, 21 Oct 2015 07:28:00 GMT'')])) example_url ''lk_test'' no_options),
       Sleep None,
       Fetch (request_init (server_always (rate_limited [(''Retry-After'', ''Wed, 21 Oct 2015 07:28:00 GMT'')])) example_url ''lk_test'' no_options),
       Sleep None,
       Fetch (request_init (server_always (rate_limited [(''Retry-After'', ''Wed, 21 Oct 2015 07:28:00 GMT'')])) example_url ''lk_test'' no_options),
       Sleep None,
       Fetch (request_init (server_always (rate_limited [(''Retry-After'', ''Wed, 21 Oct 2015 07:28:00 GMT'')])) example_url ''lk_test'' no_options)])"
  by (simp add: request_def no_options_def DEFAULT_maxRetries_def request_loop.simps try_block_def
      server_always_def plain_response_def rate_limited_def ok_def Let_def sleep_def
      retryAfter_header_def parseInt_examples parseErrorResponse_def text_or_statusText_def
      example_JSON_parse_def toString_detail_def quoted_def new_CladoRateLimitError_def throw_new_def api_message_def
      digits10.simps)

text \<open>
  C7. The claim is that a response of status 401, 404 or 422 raises the matching typed
  error after exactly one network attempt, with no retry, whatever the retry flag and
  the remaining budget. The engine does so whenever the message read from the response
  converts to a string (lemma \<open>typed_error_at_once\<close>). It misses the case of a message
  that does not (lemma \<open>typed_error_retried\<close>): run on a server that always answers 401
  with the body \<open>{"detail":{"toString":"x"}}\<close>, the constructor of the \<open>CladoAuthError\<close>
  throws a \<open>TypeError\<close> inside the \<open>try\<close> block, the \<open>catch\<close> written for network
  errors takes it, and the call is retried with backoff: 4 attempts with the default
  options, and a \<open>CladoError\<close> of status 0 whose message starts with \<open>Network error:\<close>
  in place of the \<open>CladoAuthError\<close>; with retrying switched off, 1 attempt and the same
  error.
\<close>

theorem C7_unprintable_detail_is_retried:
  "parseErrorResponse (server_always (plain_response 401 ''Unauthorized'' [] toString_detail)) (plain_response 401 ''Unauthorized'' [] toString_detail)
     = JObj [(''toString'', JStr ''x'')]
   \<and> new_CladoAuthError (Some (JObj [(''toString'', JStr ''x'')])) = Throws TypeError_message
   \<and> request (server_always (plain_response 401 ''Unauthorized'' [] toString_detail)) example_url ''lk_invalid'' no_options []
     = (Inl (CladoError 0 ''API request failed with status 0: Network error: Cannot convert object to primitive value''),
        [Fetch (request_init (server_always (plain_response 401 ''Unauthorized'' [] toString_detail)) example_url ''lk_invalid'' no_options),
         Sleep (Some 1000),
         Fetch (request_init (server_always (plain_response 401 ''Unauthorized'' [] toString_detail)) example_url ''lk_invalid'' no_options),
         Sleep (Some 2000),
         Fetch (request_init (server_always (plain_response 401 ''Unauthorized'' [] toString_detail)) example_url ''lk_invalid'' no_options),
         Sleep (Some 4000),
         Fetch (request_init (server_always (plain_response 401 ''Unauthorized'' [] toString_detail)) example_url ''lk_invalid'' no_options)])
   \<and> request (server_always (plain_response 401 ''Unauthorized'' [] toString_detail)) example_url ''lk_invalid'' (no_options\<lparr>retry := Some False\<rparr>) []
     = (Inl (CladoError 0 ''API request failed with status 0: Network error: Cannot convert object to primitive value''),
        [Fetch (request_init (server_always (plain_response 401 ''Unauthorized'' [] toString_detail)) example_url ''lk_invalid'' (no_options\<lparr>retry := Some False\<rparr>))])"
  by (simp add: request_def no_options_def DEFAULT_maxRetries_def request_loop.simps try_block_def
      server_always_def plain_response_def ok_def Let_def sleep_def calculateBackoff_def
      DEFAULT_initialDelayMs_def DEFAULT_maxDelayMs_def parseErrorResponse_def
      example_JSON_parse_def toString_detail_def quoted_def text_or_statusText_def
      new_CladoError_def new_CladoAuthError_def throw_new_def TypeError_message_def api_message_def
      digits10.simps)

text \<open>
  C8. The claim is that a caller-supplied value takes precedence over the default for
  each of the three header names. It does for \<open>Authorization\<close> and \<open>Accept\<close>, which
  the caller's entries are spread over; \<open>Content-Type\<close> is assigned after the spread,
  whenever the body is truthy, and then replaces the caller's value. Amended: every
  network attempt of a call carries the same request, whose headers are those of
  \<open>requestHeaders\<close> and whose body is present exactly when \<open>options.body\<close> is truthy;
  and for a caller's headers object (distinct keys), \<open>Content-Type\<close> is
  \<open>application/json\<close> when the body is truthy, every other name has the caller's value
  when the caller gave one, and otherwise \<open>Authorization\<close> is the bearer token,
  \<open>Accept\<close> is \<open>application/json\<close> and nothing else is sent.
\<close>

theorem C8_headers_sent:
  "(\<exists>n. filter is_Fetch (snd (request e u apiKey options tr))
          = filter is_Fetch tr @ replicate n (Fetch (request_init e u apiKey options)))
   \<and> req_headers (request_init e u apiKey options)
       = requestHeaders apiKey (case headers options of None \<Rightarrow> [] | Some h \<Rightarrow> h) (body options)
   \<and> (req_body (request_init e u apiKey options) \<noteq> None) = body_truthy (body options)
   \<and> (distinct (keys hdrs) \<longrightarrow>
        map_of (requestHeaders apiKey hdrs b) =
          (\<lambda>k. if k = ''Content-Type'' \<and> body_truthy b then Some ''application/json''
               else case map_of hdrs k of
                      Some v \<Rightarrow> Some v
                    | None \<Rightarrow>
                        if k = ''Authorization'' then Some (''Bearer '' @ apiKey)
                        else if k = ''Accept'' then Some ''application/json''
                        else None))"
proof (intro conjI impI)
  show "\<exists>n. filter is_Fetch (snd (request e u apiKey options tr))
          = filter is_Fetch tr @ replicate n (Fetch (request_init e u apiKey options))"
    unfolding request_def by (rule request_loop_fetches_same)
  show "req_headers (request_init e u apiKey options)
       = requestHeaders apiKey (case headers options of None \<Rightarrow> [] | Some h \<Rightarrow> h) (body options)"
    by (simp add: request_init_def)
  show "(req_body (request_init e u apiKey options) \<noteq> None) = body_truthy (body options)"
    by (cases "body options") (simp_all add: request_init_def)
next
  assume "distinct (keys hdrs)"
  then have r: "map_of (rev hdrs) = map_of hdrs"
    by (intro map_of_rev_distinct) (simp add: keys_def)
  show "map_of (requestHeaders apiKey hdrs b) =
          (\<lambda>k. if k = ''Content-Type'' \<and> body_truthy b then Some ''application/json''
               else case map_of hdrs k of
                      Some v \<Rightarrow> Some v
                    | None \<Rightarrow>
                        if k = ''Authorization'' then Some (''Bearer '' @ apiKey)
                        else if k = ''Accept'' then Some ''application/json''
                        else None)"
    unfolding map_of_requestHeaders r by (rule refl)
qed

theorem C8_headers_sent_witness:
  "distinct (keys [(''Accept'', ''text/csv''), (''X-Trace'', ''1'')])
   \<and> map_of (requestHeaders ''lk_test'' [(''Accept'', ''text/csv''), (''X-Trace'', ''1'')] None) ''Authorization''
       = Some ''Bearer lk_test''
   \<and> map_of (requestHeaders ''lk_test'' [(''Accept'', ''text/csv''), (''X-Trace'', ''1'')] None) ''Accept''
       = Some ''text/csv''
   \<and> map_of (requestHeaders ''lk_test'' [(''Accept'', ''text/csv''), (''X-Trace'', ''1'')] None) ''X-Trace''
       = Some ''1''
   \<and> map_of (requestHeaders ''lk_test'' [(''Accept'', ''text/csv''), (''X-Trace'', ''1'')] None) ''Content-Type''
       = None"
proof -
  have d: "distinct (keys [(''Accept'', ''text/csv''), (''X-Trace'', ''1'')])"
    by (simp add: keys_def)
  from C8_headers_sent [where hdrs = "[(''Accept'', ''text/csv''), (''X-Trace'', ''1'')]"
      and apiKey = "''lk_test''" and b = None] d
  have "map_of (requestHeaders ''lk_test'' [(''Accept'', ''text/csv''), (''X-Trace'', ''1'')] None) =
          (\<lambda>k. if k = ''Content-Type'' \<and> body_truthy None then Some ''application/json''
               else case map_of [(''Accept'', ''text/csv''), (''X-Trace'', ''1'')] k of
                      Some v \<Rightarrow> Some v
                    | None \<Rightarrow>
                        if k = ''Authorization'' then Some (''Bearer '' @ ''lk_test'')
                        else if k = ''Accept'' then Some ''application/json''
                        else None)"
    by blast
  with d show ?thesis by simp
qed

text \<open>
  The claim C8 as stated fails for a caller who sends a body with a content type of
  their own: the request goes out as \<open>application/json\<close>.
\<close>

theorem C8_content_type_overrides_caller:
  "req_headers (request_init (server_always html_200) example_url ''lk_test''
       (no_options\<lparr>body := Some (JObj []), headers := Some [(''Content-Type'', ''text/plain'')]\<rparr>))
     = [(''Authorization'', ''Bearer lk_test''), (''Accept'', ''application/json''),
        (''Content-Type'', ''application/json'')]
   \<and> map_of (requestHeaders ''lk_test'' [(''Content-Type'', ''text/plain'')] (Some (JObj []))) ''Content-Type''
     \<noteq> map_of [(''Content-Type'', ''text/plain'')] ''Content-Type''"
  by (simp add: request_init_def no_options_def requestHeaders_def spread_def Let_def)

text \<open>
  C9. The claim is that every key outside the translation table appears unchanged with
  its original value, for every input object. Two keys of the input can be renamed to
  the same key (\<open>searchId\<close> and \<open>search_id\<close>); the result then holds one entry, with
  the value of the later one. Amended, for an input object none of whose keys is the
  name of a member that the table inherits from \<open>Object.prototype\<close> (\<open>constructor\<close>,
  \<open>toString\<close>, \<open>valueOf\<close>, \<open>hasOwnProperty\<close> and the like; what becomes of such a key
  is not part of the statement): when no two keys of the input are renamed to the same
  key, the result is the input entry by entry, each key in the table replaced by its
  snake_case form and every other key and every value (\<open>undefined\<close> included) unchanged.
  In general the result maps a key to the value of the last input entry renamed to it.
  The table has the ten keys listed, and a key that is neither in the table nor the name
  of an inherited member is renamed to itself.
\<close>

theorem C9_toSnakeCase_renames:
  "((\<forall>k \<in> set (keys obj). inherited k = None) \<and> distinct (map (snakeKey inherited) (keys obj))
      \<longrightarrow> toSnakeCase inherited obj
            = map (\<lambda>(k, v). (case map_of snakeCaseMap k of Some s \<Rightarrow> s | None \<Rightarrow> k, v)) obj)
   \<and> map_of (toSnakeCase inherited obj)
       = map_of (rev (map (\<lambda>(k, v). (snakeKey inherited k, v)) obj))
   \<and> map (snakeKey inherited) [''searchId'', ''advancedFiltering'', ''linkedinUrl'', ''enrichEmail'', ''enrichPhone'',
        ''includePosts'', ''includeExperience'', ''includeEducation'', ''postUrl'', ''reactionType'']
      = [''search_id'', ''advanced_filtering'', ''linkedin_url'', ''enrich_email'', ''enrich_phone'',
         ''include_posts'', ''include_experience'', ''include_education'', ''post_url'', ''reaction_type'']
   \<and> keys snakeCaseMap = [''searchId'', ''advancedFiltering'', ''linkedinUrl'', ''enrichEmail'', ''enrichPhone'',
        ''includePosts'', ''includeExperience'', ''includeEducation'', ''postUrl'', ''reactionType'']
   \<and> (k \<notin> set (keys snakeCaseMap) \<and> inherited k = None \<longrightarrow> snakeKey inherited k = k)"
proof (intro conjI impI)
  assume h: "(\<forall>k \<in> set (keys obj). inherited k = None)
      \<and> distinct (map (snakeKey inherited) (keys obj))"
  then have "distinct (keys [] @ keys (map (\<lambda>(k, v). (snakeKey inherited k, v)) obj))"
    by (simp add: keys_renamed) (simp add: keys_def)
  from spread_distinct [OF this]
  have "toSnakeCase inherited obj = map (\<lambda>(k, v). (snakeKey inherited k, v)) obj"
    by (simp add: toSnakeCase_spread)
  also from h have "\<dots> = map (\<lambda>(k, v). (case map_of snakeCaseMap k of Some s \<Rightarrow> s | None \<Rightarrow> k, v)) obj"
    by (auto simp add: keys_def snakeKey_own)
  finally show "toSnakeCase inherited obj
      = map (\<lambda>(k, v). (case map_of snakeCaseMap k of Some s \<Rightarrow> s | None \<Rightarrow> k, v)) obj" .
next
  show "map_of (toSnakeCase inherited obj)
      = map_of (rev (map (\<lambda>(k, v). (snakeKey inherited k, v)) obj))"
    by (rule toSnakeCase_lookup)
next
  show "map (snakeKey inherited) [''searchId'', ''advancedFiltering'', ''linkedinUrl'', ''enrichEmail'', ''enrichPhone'',
        ''includePosts'', ''includeExperience'', ''includeEducation'', ''postUrl'', ''reactionType'']
      = [''search_id'', ''advanced_filtering'', ''linkedin_url'', ''enrich_email'', ''enrich_phone'',
         ''include_posts'', ''include_experience'', ''include_education'', ''post_url'', ''reaction_type'']"
    by (rule snakeKey_table)
next
  show "keys snakeCaseMap = [''searchId'', ''advancedFiltering'', ''linkedinUrl'', ''enrichEmail'', ''enrichPhone'',
        ''includePosts'', ''includeExperience'', ''includeEducation'', ''postUrl'', ''reactionType'']"
    by (simp add: keys_def snakeCaseMap_def)
next
  assume "k \<notin> set (keys snakeCaseMap) \<and> inherited k = None"
  then show "snakeKey inherited k = k" by (simp add: snakeKey_other)
qed

theorem C9_toSnakeCase_witness:
  "map (map_of Object_prototype) (keys [(''query'', VStr ''engineers''), (''searchId'', VUndefined),
       (''limit'', VNum 10), (''customField'', VNull)]) = [None, None, None, None]
   \<and> distinct (map (snakeKey (map_of Object_prototype)) (keys [(''query'', VStr ''engineers''), (''searchId'', VUndefined),
       (''limit'', VNum 10), (''customField'', VNull)]))
   \<and> ''customField'' \<notin> set (keys snakeCaseMap)
   \<and> toSnakeCase (map_of Object_prototype) [(''query'', VStr ''engineers''), (''searchId'', VUndefined),
       (''limit'', VNum 10), (''customField'', VNull)]
       = [(''query'', VStr ''engineers''), (''search_id'', VUndefined),
          (''limit'', VNum 10), (''customField'', VNull)]
   \<and> snakeKey (map_of Object_prototype) ''customField'' = ''customField''"
proof -
  have nk: "''customField'' \<notin> set (keys snakeCaseMap)"
    by (simp add: keys_def snakeCaseMap_def)
  have ni: "\<forall>k \<in> set (keys [(''query'', VStr ''engineers''), (''searchId'', VUndefined),
       (''limit'', VNum 10), (''customField'', VNull)]). map_of Object_prototype k = None"
    "map_of Object_prototype ''customField'' = None"
    "map (map_of Object_prototype) (keys [(''query'', VStr ''engineers''), (''searchId'', VUndefined),
       (''limit'', VNum 10), (''customField'', VNull)]) = [None, None, None, None]"
    by (simp_all add: keys_def Object_prototype_def)
  have sk: "snakeKey (map_of Object_prototype) ''query'' = ''query''"
    "snakeKey (map_of Object_prototype) ''searchId'' = ''search_id''"
    "snakeKey (map_of Object_prototype) ''limit'' = ''limit''"
    by (simp_all add: snakeKey_def snakeCaseMap_def Object_prototype_def)
  note t = C9_toSnakeCase_renames [of "[(''query'', VStr ''engineers''), (''searchId'', VUndefined),
       (''limit'', VNum 10), (''customField'', VNull)]" "map_of Object_prototype" "''customField''"]
  from t nk ni(2) have ck: "snakeKey (map_of Object_prototype) ''customField'' = ''customField''"
    by blast
  have d: "distinct (map (snakeKey (map_of Object_prototype)) (keys [(''query'', VStr ''engineers''), (''searchId'', VUndefined),
       (''limit'', VNum 10), (''customField'', VNull)]))"
    by (simp add: keys_def sk ck)
  from t ni(1) d
  have "toSnakeCase (map_of Object_prototype) [(''query'', VStr ''engineers''), (''searchId'', VUndefined),
       (''limit'', VNum 10), (''customField'', VNull)]
       = map (\<lambda>(k, v). (case map_of snakeCaseMap k of Some s \<Rightarrow> s | None \<Rightarrow> k, v)) [(''query'', VStr ''engineers''), (''searchId'', VUndefined),
       (''limit'', VNum 10), (''customField'', VNull)]"
    by blast
  then have r: "toSnakeCase (map_of Object_prototype) [(''query'', VStr ''engineers''), (''searchId'', VUndefined),
       (''limit'', VNum 10), (''customField'', VNull)]
       = [(''query'', VStr ''engineers''), (''search_id'', VUndefined),
          (''limit'', VNum 10), (''customField'', VNull)]"
    by (simp add: snakeCaseMap_def)
  from ni(3) d nk r ck show ?thesis by blast
qed

text \<open>
  The claim C9 as stated fails on an object that has both \<open>search_id\<close> and
  \<open>searchId\<close>: the key \<open>search_id\<close>, which is not in the table, does not keep its
  value.
\<close>

theorem C9_key_collision:
  "toSnakeCase (map_of Object_prototype) [(''search_id'', VStr ''a''), (''searchId'', VStr ''b'')]
     = [(''search_id'', VStr ''b'')]
   \<and> map_of (toSnakeCase (map_of Object_prototype)
               [(''search_id'', VStr ''a''), (''searchId'', VStr ''b'')]) ''search_id''
      \<noteq> map_of [(''search_id'', VStr ''a''), (''searchId'', VStr ''b'')] ''search_id''"
  by (simp add: toSnakeCase_def snakeKey_def snakeCaseMap_def Object_prototype_def)

text \<open>
  C10. Whatever the options object holds, the first call of \<open>searchPeopleAll\<close> to
  \<open>searchPeople\<close> is made with the options spread under \<open>searchId = undefined\<close>,
  \<open>offset = 0\<close> and the limit: the run is the run after that call, every finished run
  has it first in its trace, and the object passed holds \<open>searchId \<mapsto> undefined\<close> and
  \<open>offset \<mapsto> 0\<close>. For an options object with distinct keys and no key \<open>search_id\<close> (the
  declared options type has none), the URL requested for it has no \<open>search_id\<close> and no
  \<open>searchId\<close> parameter and the one parameter \<open>offset=0\<close>.
\<close>

theorem C10_first_request_ignores_caller_cursor:
  "searchPeopleAll c options tr =
     (case searchPeople c tr (page_options options VUndefined 0 (limit_of options)) of
        Inl err \<Rightarrow>
          Some ([], Some err, tr @ [SearchPeople (page_options options VUndefined 0 (limit_of options))])
      | Inr response \<Rightarrow>
          if int (length (results response)) < limit_of options
             \<or> total response \<le> int (length (results response))
          then Some (results response, None,
                     tr @ [SearchPeople (page_options options VUndefined 0 (limit_of options))])
          else searchPeopleAll_loop c options (VStr (search_id response))
                 (int (length (results response))) (limit_of options) (results response)
                 (tr @ [SearchPeople (page_options options VUndefined 0 (limit_of options))]))
   \<and> (searchPeopleAll c options tr = Some (ys, err, tr') \<longrightarrow>
        (\<exists>rest. tr' = tr @ SearchPeople (page_options options VUndefined 0 (limit_of options)) # rest))
   \<and> map_of (page_options options VUndefined 0 (limit_of options)) ''searchId'' = Some VUndefined
   \<and> map_of (page_options options VUndefined 0 (limit_of options)) ''offset'' = Some (VNum 0)
   \<and> (distinct (keys options) \<and> ''search_id'' \<notin> set (keys options) \<longrightarrow>
        filter (\<lambda>p. fst p = ''search_id'')
          (searchParams (searchPeople_url baseUrl (page_options options VUndefined 0 (limit_of options)))) = []
        \<and> filter (\<lambda>p. fst p = ''searchId'')
          (searchParams (searchPeople_url baseUrl (page_options options VUndefined 0 (limit_of options)))) = []
        \<and> filter (\<lambda>p. fst p = ''offset'')
          (searchParams (searchPeople_url baseUrl (page_options options VUndefined 0 (limit_of options))))
          = [(''offset'', ''0'')])"
proof (intro conjI impI)
  show "searchPeopleAll c options tr =
     (case searchPeople c tr (page_options options VUndefined 0 (limit_of options)) of
        Inl err \<Rightarrow>
          Some ([], Some err, tr @ [SearchPeople (page_options options VUndefined 0 (limit_of options))])
      | Inr response \<Rightarrow>
          if int (length (results response)) < limit_of options
             \<or> total response \<le> int (length (results response))
          then Some (results response, None,
                     tr @ [SearchPeople (page_options options VUndefined 0 (limit_of options))])
          else searchPeopleAll_loop c options (VStr (search_id response))
                 (int (length (results response))) (limit_of options) (results response)
                 (tr @ [SearchPeople (page_options options VUndefined 0 (limit_of options))]))"
    unfolding searchPeopleAll_def
    by (cases "searchPeople c tr (page_options options VUndefined 0 (limit_of options))")
      (simp_all add: searchPeopleAll_error searchPeopleAll_page)
next
  assume "searchPeopleAll c options tr = Some (ys, err, tr')"
  from searchPeopleAll_trace [OF this [unfolded searchPeopleAll_def]]
  show "\<exists>rest. tr' = tr @ SearchPeople (page_options options VUndefined 0 (limit_of options)) # rest"
    by simp
next
  show "map_of (page_options options VUndefined 0 (limit_of options)) ''searchId'' = Some VUndefined"
    by (simp add: page_options_lookup)
  show "map_of (page_options options VUndefined 0 (limit_of options)) ''offset'' = Some (VNum 0)"
    by (simp add: page_options_lookup)
next
  assume h: "distinct (keys options) \<and> ''search_id'' \<notin> set (keys options)"
  then have d: "distinct (keys options)" and n: "''search_id'' \<notin> set (keys options)" by simp_all
  from page_params(1) [OF d n, where baseUrl = baseUrl and searchId = VUndefined and offset = 0 and limit = "limit_of options"]
  show "filter (\<lambda>p. fst p = ''search_id'')
          (searchParams (searchPeople_url baseUrl (page_options options VUndefined 0 (limit_of options)))) = []"
    by simp
  from page_params(2) [OF d n, where baseUrl = baseUrl and searchId = VUndefined and offset = 0 and limit = "limit_of options"]
  show "filter (\<lambda>p. fst p = ''searchId'')
          (searchParams (searchPeople_url baseUrl (page_options options VUndefined 0 (limit_of options)))) = []"
    by simp
  from page_params(3) [OF d n, where baseUrl = baseUrl and searchId = VUndefined and offset = 0 and limit = "limit_of options"]
  show "filter (\<lambda>p. fst p = ''offset'')
          (searchParams (searchPeople_url baseUrl (page_options options VUndefined 0 (limit_of options))))
          = [(''offset'', ''0'')]"
    by (simp add: show_int_0)
qed

theorem C10_first_request_witness:
  "(distinct (keys stale_options) \<and> ''search_id'' \<notin> set (keys stale_options))
   \<and> searchPeopleAll (paged_client [1..<32] ''abc-123'') stale_options []
       = Some ([1..<32], None,
               [SearchPeople (page_options stale_options VUndefined 0 30),
                SearchPeople (page_options stale_options (VStr ''abc-123'') 30 30)])
   \<and> (\<exists>rest. [SearchPeople (page_options stale_options VUndefined 0 30),
               SearchPeople (page_options stale_options (VStr ''abc-123'') 30 30)]
        = [] @ SearchPeople (page_options stale_options VUndefined 0 (limit_of stale_options)) # rest)
   \<and> page_options stale_options VUndefined 0 30
       = [(''query'', VStr ''engineers''), (''searchId'', VUndefined), (''offset'', VNum 0),
          (''limit'', VNum 30)]
   \<and> filter (\<lambda>p. fst p = ''search_id'')
          (searchParams (searchPeople_url DEFAULT_BASE_URL (page_options stale_options VUndefined 0 30))) = []
   \<and> filter (\<lambda>p. fst p = ''offset'')
          (searchParams (searchPeople_url DEFAULT_BASE_URL (page_options stale_options VUndefined 0 30)))
       = [(''offset'', ''0'')]"
proof -
  have h: "distinct (keys stale_options) \<and> ''search_id'' \<notin> set (keys stale_options)"
    by (simp add: stale_options_def keys_def)
  have l: "limit_of stale_options = 30"
    by (simp add: limit_of_def stale_options_def)
  have run: "searchPeopleAll (paged_client [1..<32] ''abc-123'') stale_options []
       = Some ([1..<32], None,
               [] @ [SearchPeople (page_options stale_options VUndefined 0 30),
                SearchPeople (page_options stale_options (VStr ''abc-123'') 30 30)])"
    by (rule run_31) (simp_all add: l)
  have po: "page_options stale_options VUndefined 0 30
       = [(''query'', VStr ''engineers''), (''searchId'', VUndefined), (''offset'', VNum 0),
          (''limit'', VNum 30)]"
    by (simp add: page_options_def spread_def stale_options_def)
  note t = C10_first_request_ignores_caller_cursor [where c = "paged_client [1..<32] ''abc-123''"
      and options = stale_options and tr = "[]" and ys = "[1..<32]" and err = None
      and tr' = "[SearchPeople (page_options stale_options VUndefined 0 30),
                SearchPeople (page_options stale_options (VStr ''abc-123'') 30 30)]"
      and baseUrl = DEFAULT_BASE_URL]
  from t run have tr: "\<exists>rest. [SearchPeople (page_options stale_options VUndefined 0 30),
               SearchPeople (page_options stale_options (VStr ''abc-123'') 30 30)]
        = [] @ SearchPeople (page_options stale_options VUndefined 0 (limit_of stale_options)) # rest"
    by simp
  from t h have u: "filter (\<lambda>p. fst p = ''search_id'')
          (searchParams (searchPeople_url DEFAULT_BASE_URL (page_options stale_options VUndefined 0 30))) = []"
    "filter (\<lambda>p. fst p = ''offset'')
          (searchParams (searchPeople_url DEFAULT_BASE_URL (page_options stale_options VUndefined 0 30)))
       = [(''offset'', ''0'')]"
    unfolding l by blast+
  from h run tr po u show ?thesis by simp
qed

end
